theory Spec2Isabelle
  imports Main "HOL-Library.AList" "HOL-Library.List_Lexorder" "HOL-Library.Char_ord"
    "HOL-Library.Multiset"
begin

section \<open>Blazemark: the incremental build pipeline of \<^verbatim>\<open>blazemark.py\<close>\<close>

text \<open>
  The development follows \<^verbatim>\<open>src/blazemark.py\<close> from top to bottom: the values a front
  matter can hold, the string helpers, \<^verbatim>\<open>parse_front_matter\<close>, the render worker,
  and the phases of \<^verbatim>\<open>Blazemark.build\<close>. Library code the program calls (the YAML
  loader, SHA-1, the markdown converter, Jinja templates, the process pool) is
  not part of the repository; it enters as the fields of the record \<open>env\<close>.
  Strings are byte strings (UTF-8); an exception is a value of type \<open>error\<close>.
\<close>

subsection \<open>Python values read from YAML\<close>

text \<open>
  What \<^verbatim>\<open>yaml.safe_load\<close> can return, as far as the program looks at it: \<^verbatim>\<open>None\<close>,
  booleans, integers, strings, \<^verbatim>\<open>datetime.date\<close> (a day number),
  \<^verbatim>\<open>datetime.datetime\<close> (a flag saying whether it carries a time zone, and its
  offset from 1970-01-01 00:00:00 in microseconds), lists, and mappings with
  string keys in insertion order. Floats are left out.
\<close>

datatype yval =
    YNull
  | YBool bool
  | YInt int
  | YStr string
  | YDate int
  | YDateTime bool int
  | YList "yval list"
  | YMap "(string \<times> yval) list"

datatype error =
    AttributeError
  | TypeError
  | FileNotFoundError string
  | TemplateNotFound string
  | RenderError string
  | ValueError
  | Unmodelled

text \<open>Truth value of a Python object, as \<^verbatim>\<open>or\<close>, \<^verbatim>\<open>not\<close> and \<^verbatim>\<open>if\<close> test it.\<close>

fun truthy :: "yval \<Rightarrow> bool" where
  "truthy YNull = False"
| "truthy (YBool b) = b"
| "truthy (YInt n) = (n \<noteq> 0)"
| "truthy (YStr s) = (s \<noteq> [])"
| "truthy (YDate d) = True"
| "truthy (YDateTime z t) = True"
| "truthy (YList xs) = (xs \<noteq> [])"
| "truthy (YMap m) = (m \<noteq> [])"

text \<open>
  \<^verbatim>\<open>meta.get(key, default)\<close>: only a mapping has \<^verbatim>\<open>get\<close>; on any other value the
  attribute lookup raises.
\<close>

fun py_get :: "yval \<Rightarrow> string \<Rightarrow> yval \<Rightarrow> error + yval" where
  "py_get (YMap m) k d = Inr (case map_of m k of Some v \<Rightarrow> v | None \<Rightarrow> d)"
| "py_get v k d = Inl AttributeError"

text \<open>
  Python's \<^verbatim>\<open>==\<close> on the hashable values: structural, except that \<^verbatim>\<open>True == 1\<close>
  and \<^verbatim>\<open>False == 0\<close>.
\<close>

fun as_int :: "yval \<Rightarrow> yval" where
  "as_int (YBool b) = YInt (if b then 1 else 0)"
| "as_int v = v"

definition py_eq :: "yval \<Rightarrow> yval \<Rightarrow> bool" where
  "py_eq a b = (as_int a = as_int b)"

fun hashable :: "yval \<Rightarrow> bool" where
  "hashable (YList xs) = False"
| "hashable (YMap m) = False"
| "hashable v = True"

subsection \<open>String helpers\<close>

definition startswith :: "string \<Rightarrow> string \<Rightarrow> bool" where
  "startswith s p = (take (length p) s = p)"

text \<open>
  \<open>partition_at sep s\<close> cuts \<open>s\<close> at the leftmost occurrence of \<open>sep\<close>;
  \<open>py_split sep n s\<close> is \<^verbatim>\<open>s.split(sep, n)\<close> for a non-empty separator.
\<close>

fun partition_at :: "string \<Rightarrow> string \<Rightarrow> (string \<times> string) option" where
  "partition_at sep [] = (if sep = [] then Some ([], []) else None)"
| "partition_at sep (c # cs) =
     (if startswith (c # cs) sep then Some ([], drop (length sep) (c # cs))
      else (case partition_at sep cs of
              None \<Rightarrow> None
            | Some (a, b) \<Rightarrow> Some (c # a, b)))"

fun py_split :: "string \<Rightarrow> nat \<Rightarrow> string \<Rightarrow> string list" where
  "py_split sep 0 s = [s]"
| "py_split sep (Suc n) s =
     (case partition_at sep s of
        None \<Rightarrow> [s]
      | Some (a, b) \<Rightarrow> a # py_split sep n b)"

text \<open>\<^verbatim>\<open>s.lstrip('\n')\<close>; the line feed is byte 10.\<close>

definition lstrip_nl :: "string \<Rightarrow> string" where
  "lstrip_nl s = dropWhile (\<lambda>c. c = CHR 0x0A) s"

text \<open>
  \<^verbatim>\<open>Path(p).stem\<close>: the last component of the path, cut before its last dot when
  that dot is neither the first nor the last character of the name.
\<close>

definition path_name :: "string \<Rightarrow> string" where
  "path_name p = rev (takeWhile (\<lambda>c. c \<noteq> CHR ''/'') (rev p))"

definition rfind :: "char \<Rightarrow> string \<Rightarrow> int" where
  "rfind c s =
     (if c \<in> set s
      then int (length s) - 1 - int (length (takeWhile (\<lambda>x. x \<noteq> c) (rev s)))
      else - 1)"

definition path_stem :: "string \<Rightarrow> string" where
  "path_stem p =
     (let name = path_name p; i = rfind CHR ''.'' name
      in if 0 < i \<and> i < int (length name) - 1 then take (nat i) name else name)"

definition safe_slug :: "string \<Rightarrow> string" where
  "safe_slug path = path_stem path"

subsection \<open>Paths\<close>

text \<open>
  A \<^verbatim>\<open>pathlib\<close> path on a POSIX system is a root (empty, \<^verbatim>\<open>/\<close>, or \<^verbatim>\<open>//\<close> for
  exactly two leading slashes) and a list of components; empty components and
  \<^verbatim>\<open>.\<close> are dropped when a text is parsed, \<^verbatim>\<open>..\<close> is kept. \<open>path_div p s\<close> is
  \<^verbatim>\<open>p / s\<close>: a text with a root replaces the path, any other text adds its
  components. \<open>path_str\<close> is \<^verbatim>\<open>str(p)\<close> and \<^verbatim>\<open>p.as_posix()\<close>.
  \<open>relative_to p base\<close> is \<^verbatim>\<open>p.relative_to(base)\<close>, which raises \<^verbatim>\<open>ValueError\<close>
  when \<open>p\<close> does not lie under \<open>base\<close>. The output tree is keyed by the text
  of the path.
\<close>

fun split_char :: "char \<Rightarrow> string \<Rightarrow> string list" where
  "split_char c [] = [[]]"
| "split_char c (x # xs) =
     (if x = c then [] # split_char c xs
      else (case split_char c xs of
              [] \<Rightarrow> [[x]]
            | p # ps \<Rightarrow> (x # p) # ps))"

fun join_with :: "string \<Rightarrow> string list \<Rightarrow> string" where
  "join_with sep [] = []"
| "join_with sep [p] = p"
| "join_with sep (p # q # ps) = p @ sep @ join_with sep (q # ps)"

type_synonym pure_path = "string \<times> string list"

definition path_root :: "string \<Rightarrow> string" where
  "path_root s =
     (let n = length (takeWhile (\<lambda>c. c = CHR ''/'') s)
      in if n = 0 then [] else if n = 2 then ''//'' else ''/'')"

definition parse_path :: "string \<Rightarrow> pure_path" where
  "parse_path s = (path_root s, filter (\<lambda>p. p \<noteq> [] \<and> p \<noteq> ''.'') (split_char CHR ''/'' s))"

definition path_div :: "pure_path \<Rightarrow> string \<Rightarrow> pure_path" where
  "path_div p s =
     (let q = parse_path s
      in if fst q \<noteq> [] then q else (fst p, snd p @ snd q))"

definition path_str :: "pure_path \<Rightarrow> string" where
  "path_str p =
     (let t = fst p @ join_with ''/'' (snd p) in if t = [] then ''.'' else t)"

definition relative_to :: "pure_path \<Rightarrow> pure_path \<Rightarrow> error + pure_path" where
  "relative_to p base =
     (if fst p = fst base \<and> take (length (snd base)) (snd p) = snd base
      then Inr ([], drop (length (snd base)) (snd p))
      else Inl ValueError)"

definition OUTPUT_DIR :: pure_path where
  "OUTPUT_DIR = ([], [''public''])"

subsection \<open>The world outside the program\<close>

text \<open>What the program prints: one entry for each \<^verbatim>\<open>print\<close> of an error it caught.\<close>

datatype log_entry =
    FrontMatterError string
  | PluginError string string string

text \<open>
  A Jinja template, once loaded, maps the keyword arguments of \<^verbatim>\<open>render\<close> to the
  page, or raises.
\<close>

type_synonym template = "(string \<times> yval) list \<Rightarrow> error + string"

record cache_entry =
  ce_mtime :: int
  ce_hash :: string
  ce_output :: string

type_synonym cache_posts = "string \<rightharpoonup> cache_entry"

text \<open>The dataclass \<^verbatim>\<open>Post\<close> handed to a plugin.\<close>

record post =
  p_src :: string
  p_slug :: yval
  p_title :: yval
  p_date :: yval
  p_content :: yval
  p_meta :: "(string \<times> yval) list"
  p_url :: string

text \<open>
  A plugin instance: the name of its class, its \<^verbatim>\<open>on_after_render\<close> (the new HTML,
  or the message of the exception it raises) and its \<^verbatim>\<open>on_build_finished\<close>, which
  reads the generator's configuration and cache and yields the files it writes
  under the output directory (or the message of its exception).
\<close>

record plugin =
  class_name :: string
  on_after_render :: "post \<Rightarrow> string \<Rightarrow> string + string"
  on_build_finished ::
    "(string \<times> yval) list \<Rightarrow> cache_posts \<Rightarrow> string + (string \<times> string) list"

text \<open>
  The libraries and the machine: \<^verbatim>\<open>yaml.safe_load\<close> (the parsed value, or the
  message of the exception), \<^verbatim>\<open>hashlib.sha1(..).hexdigest()\<close>, the markdown
  converter, the \<^verbatim>\<open>re.sub\<close> that moves a code block's language into its class,
  \<^verbatim>\<open>str()\<close> of a value that is not a string, the templates of a theme directory,
  the files of its \<^verbatim>\<open>static\<close> directory, \<^verbatim>\<open>st_mtime\<close> of a path, the current year,
  the order in which \<^verbatim>\<open>as_completed\<close> yields the submitted tasks, and the CPU
  count.
\<close>

record env =
  yaml_safe_load :: "string \<Rightarrow> string + yval"
  sha1_hexdigest :: "string \<Rightarrow> string"
  markdown_to_html :: "string \<Rightarrow> string + string"
  re_sub_pre_lang :: "string \<Rightarrow> string"
  format_value :: "yval \<Rightarrow> string"
  theme_templates :: "string \<Rightarrow> string \<Rightarrow> template option"
  theme_static :: "string \<Rightarrow> (string \<times> string) list"
  st_mtime :: "string \<Rightarrow> int"
  now_year :: int
  as_completed :: "string list \<Rightarrow> string list"
  cpu_count :: nat

text \<open>
  The content directory: the markdown files directly under \<^verbatim>\<open>content/\<close> and those
  under \<^verbatim>\<open>content/pages/\<close>, each a path with the text of the file, in the order
  the directory lists them.
\<close>

record content =
  posts :: "(string \<times> string) list"
  pages :: "(string \<times> string) list"

definition read_file :: "content \<Rightarrow> string \<Rightarrow> string option" where
  "read_file C p = map_of (posts C @ pages C) p"

definition compute_hash :: "env \<Rightarrow> string \<Rightarrow> string" where
  "compute_hash E s = sha1_hexdigest E s"

subsection \<open>Front matter\<close>

text \<open>
  \<^verbatim>\<open>parse_front_matter(text)\<close> returns the metadata and the body; the third
  component is what it printed. \<^verbatim>\<open>yaml.safe_load(parts[1]) or {}\<close> keeps any truthy
  value the loader returns, mapping or not.
\<close>

definition parse_front_matter :: "env \<Rightarrow> string \<Rightarrow> yval \<times> string \<times> log_entry list" where
  "parse_front_matter E text =
     (if startswith text ''---'' then
        (let parts = py_split ''---'' 2 text in
         if length parts \<ge> 3 then
           (case yaml_safe_load E (parts ! 1) of
              Inr v \<Rightarrow> (if truthy v then v else YMap [], lstrip_nl (parts ! 2), [])
            | Inl msg \<Rightarrow> (YMap [], lstrip_nl (parts ! 2), [FrontMatterError msg]))
         else (YMap [], text, []))
      else (YMap [], text, []))"

subsection \<open>The render worker\<close>

text \<open>The dictionary a worker returns.\<close>

record render_result =
  r_src :: string
  r_slug :: yval
  r_html :: string
  r_meta :: "(string \<times> yval) list"
  r_url :: string

definition dict_get :: "(string \<times> yval) list \<Rightarrow> string \<Rightarrow> yval \<Rightarrow> yval" where
  "dict_get m k d = (case map_of m k of Some v \<Rightarrow> v | None \<Rightarrow> d)"

text \<open>A value inside an f-string.\<close>

definition py_str :: "env \<Rightarrow> yval \<Rightarrow> string" where
  "py_str E v = (case v of YStr s \<Rightarrow> s | _ \<Rightarrow> format_value E v)"

text \<open>
  \<^verbatim>\<open>slug = meta.get("slug") or src_path.stem\<close>, the first thing the worker computes
  from the metadata.
\<close>

definition resolve_slug :: "yval \<Rightarrow> string \<Rightarrow> error + yval" where
  "resolve_slug meta src =
     (case py_get meta ''slug'' YNull of
        Inl e \<Rightarrow> Inl e
      | Inr v \<Rightarrow> Inr (if truthy v then v else YStr (path_stem src)))"

text \<open>
  \<^verbatim>\<open>render_post_worker((src, theme_dir, site_meta))\<close>. The worker reads the file
  again and parses it again. What \<^verbatim>\<open>parse_front_matter\<close> prints in the worker
  appears on the console of the build; \<open>worker_printed\<close> gives these lines.
\<close>

definition worker_printed :: "env \<Rightarrow> content \<Rightarrow> string \<Rightarrow> log_entry list" where
  "worker_printed E C src =
     (case read_file C src of
        None \<Rightarrow> []
      | Some text \<Rightarrow> snd (snd (parse_front_matter E text)))"

definition render_post_worker ::
  "env \<Rightarrow> content \<Rightarrow> string \<Rightarrow> yval \<Rightarrow> string \<Rightarrow> error + render_result" where
  "render_post_worker E C theme site_meta src =
     (case read_file C src of
        None \<Rightarrow> Inl (FileNotFoundError src)
      | Some text \<Rightarrow>
         (case parse_front_matter E text of
            (meta, body, printed) \<Rightarrow>
             (case resolve_slug meta src of
                Inl e \<Rightarrow> Inl e
              | Inr slug \<Rightarrow>
                 (case py_get meta ''title'' slug of
                    Inl e \<Rightarrow> Inl e
                  | Inr title \<Rightarrow>
                     (case markdown_to_html E body of
                        Inl msg \<Rightarrow> Inl (RenderError msg)
                      | Inr converted \<Rightarrow>
                         (let html_body = re_sub_pre_lang E converted in
                          case theme_templates E theme ''post.html'' of
                            None \<Rightarrow> Inl (TemplateNotFound ''post.html'')
                          | Some tpl \<Rightarrow>
                             (case tpl [(''post'', YMap [(''title'', title),
                                                       (''content'', YStr html_body),
                                                       (''meta'', meta)]),
                                        (''site'', site_meta),
                                        (''page'', meta)] of
                                Inl e \<Rightarrow> Inl e
                              | Inr out_html \<Rightarrow>
                                 (case meta of
                                    YMap m \<Rightarrow>
                                      Inr \<lparr>r_src = src, r_slug = slug, r_html = out_html,
                                           r_meta = AList.update ''content_raw'' (YStr body) m,
                                           r_url = ''/'' @ py_str E slug @ ''/index.html''\<rparr>
                                  | _ \<Rightarrow> Inl TypeError))))))))"

subsection \<open>The generator\<close>

text \<open>
  The fields of a \<^verbatim>\<open>Blazemark\<close> object that a build only reads. Its cache is
  part of the build state below.
\<close>

record generator =
  config :: "(string \<times> yval) list"
  theme_dir :: string
  plugins :: "plugin list"
  workers :: nat

text \<open>\<^verbatim>\<open>_optimal_workers\<close>, and \<^verbatim>\<open>workers or self._optimal_workers()\<close>.\<close>

definition optimal_workers :: "env \<Rightarrow> content \<Rightarrow> nat" where
  "optimal_workers E C = min (cpu_count E) (max 2 (length (posts C)))"

definition init_workers :: "env \<Rightarrow> content \<Rightarrow> nat option \<Rightarrow> nat" where
  "init_workers E C w =
     (case w of
        None \<Rightarrow> optimal_workers E C
      | Some n \<Rightarrow> if n = 0 then optimal_workers E C else n)"

definition load_cache :: "cache_posts option \<Rightarrow> cache_posts" where
  "load_cache cf = (case cf of None \<Rightarrow> Map.empty | Some c \<Rightarrow> c)"

definition discover_posts_and_pages :: "content \<Rightarrow> string list \<times> string list" where
  "discover_posts_and_pages C = (sort (map fst (posts C)), sort (map fst (pages C)))"

definition site_meta_of :: "env \<Rightarrow> generator \<Rightarrow> yval" where
  "site_meta_of E G =
     YMap [(''title'', dict_get (config G) ''title'' (YStr ''Blazemark Blog'')),
           (''subtitle'', dict_get (config G) ''subtitle'' (YStr [])),
           (''description'', dict_get (config G) ''description'' (YStr [])),
           (''author'', dict_get (config G) ''author'' (YStr [])),
           (''url'', dict_get (config G) ''url'' (YStr [])),
           (''language'', dict_get (config G) ''language'' (YStr ''en'')),
           (''year'', YInt (now_year E))]"

subsection \<open>Build, first half: which documents to render\<close>

text \<open>
  The loop over \<^verbatim>\<open>all_files\<close> that fills \<^verbatim>\<open>tasks\<close>. The result is the list of
  source paths to render, or the exception that ended the loop, together with
  what was printed.
\<close>

fun collect_tasks ::
  "env \<Rightarrow> content \<Rightarrow> bool \<Rightarrow> cache_posts \<Rightarrow> string list \<Rightarrow> (error + string list) \<times> log_entry list" where
  "collect_tasks E C force c [] = (Inr [], [])"
| "collect_tasks E C force c (f # fs) =
     (case read_file C f of
        None \<Rightarrow> (Inl (FileNotFoundError f), [])
      | Some text \<Rightarrow>
         (case parse_front_matter E text of
            (meta, body, printed) \<Rightarrow>
             (case py_get meta ''draft'' (YBool False) of
                Inl e \<Rightarrow> (Inl e, printed)
              | Inr draft \<Rightarrow>
                 (case collect_tasks E C force c fs of
                    (rest, printed') \<Rightarrow>
                     (case rest of
                        Inl e \<Rightarrow> (Inl e, printed @ printed')
                      | Inr ts \<Rightarrow>
                         (Inr (if truthy draft \<and> \<not> force then ts
                               else if force \<or> (case c f of
                                                   None \<Rightarrow> True
                                                 | Some cached \<Rightarrow> ce_hash cached \<noteq> compute_hash E text)
                               then f # ts else ts),
                          printed @ printed'))))))"

text \<open>
  The pool: every task is rendered, and \<^verbatim>\<open>fut.result()\<close> is read in the order of
  completion; the first result that is an exception raises it again.
\<close>

fun render_all ::
  "env \<Rightarrow> content \<Rightarrow> string \<Rightarrow> yval \<Rightarrow> string list \<Rightarrow> error + render_result list" where
  "render_all E C theme site_meta [] = Inr []"
| "render_all E C theme site_meta (t # ts) =
     (case render_post_worker E C theme site_meta t of
        Inl e \<Rightarrow> Inl e
      | Inr res \<Rightarrow>
         (case render_all E C theme site_meta ts of
            Inl e \<Rightarrow> Inl e
          | Inr rs \<Rightarrow> Inr (res # rs)))"

subsection \<open>Build, second half: plugins, output, taxonomy\<close>

text \<open>
  What a running build changes: \<^verbatim>\<open>self.cache["posts"]\<close>, the files under
  \<^verbatim>\<open>public/\<close>, the cache file on disk (absent or unreadable is \<open>None\<close>), the
  console, and the local variables \<^verbatim>\<open>raw_post_list\<close>, \<^verbatim>\<open>all_tags\<close> and
  \<^verbatim>\<open>all_categories\<close>. An entry of \<^verbatim>\<open>raw_post_list\<close> is a metadata dictionary
  with a URL. The two sets are kept as lists without repetition, in the order
  of first insertion.
\<close>

type_synonym post_entry = "(string \<times> yval) list \<times> string"

record bstate =
  cache :: cache_posts
  public :: "string \<rightharpoonup> string"
  cache_file :: "cache_posts option"
  console :: "log_entry list"
  raw_post_list :: "post_entry list"
  all_tags :: "yval list"
  all_categories :: "yval list"

definition write_file :: "string \<Rightarrow> string \<Rightarrow> bstate \<Rightarrow> bstate" where
  "write_file p t st = st\<lparr>public := (public st)(p \<mapsto> t)\<rparr>"

text \<open>
  Sequencing with exceptions: the next statement runs only when the previous
  one did not raise; the state reached so far is kept either way.
\<close>

definition and_then ::
  "error option \<times> bstate \<Rightarrow> (bstate \<Rightarrow> error option \<times> bstate) \<Rightarrow> error option \<times> bstate" where
  "and_then r f = (case r of (None, st) \<Rightarrow> f st | (Some e, st) \<Rightarrow> (Some e, st))"

text \<open>
  The \<^verbatim>\<open>Post\<close> built for a plugin call; \<^verbatim>\<open>res["meta"]["content_raw"]\<close> raises
  \<^verbatim>\<open>KeyError\<close> when the key is missing.
\<close>

definition mk_post :: "render_result \<Rightarrow> string + post" where
  "mk_post res =
     (case map_of (r_meta res) ''content_raw'' of
        None \<Rightarrow> Inl ''KeyError: content_raw''
      | Some raw \<Rightarrow>
          Inr \<lparr>p_src = r_src res, p_slug = r_slug res,
               p_title = dict_get (r_meta res) ''title'' (r_slug res),
               p_date = dict_get (r_meta res) ''published'' (YStr []),
               p_content = raw, p_meta = r_meta res, p_url = r_url res\<rparr>)"

text \<open>
  The loop \<^verbatim>\<open>for p in self.plugins\<close> around \<^verbatim>\<open>on_after_render\<close>: the third argument
  is the current \<^verbatim>\<open>res["html"]\<close>; the result is its final value and what was
  printed.
\<close>

fun run_after_render ::
  "plugin list \<Rightarrow> render_result \<Rightarrow> string \<Rightarrow> string \<times> log_entry list" where
  "run_after_render [] res html = (html, [])"
| "run_after_render (p # ps) res html =
     (case (case mk_post res of
              Inl msg \<Rightarrow> Inl msg
            | Inr po \<Rightarrow> on_after_render p po html) of
        Inr html' \<Rightarrow> run_after_render ps res html'
      | Inl msg \<Rightarrow>
         (case run_after_render ps res html of
            (h, printed) \<Rightarrow> (h, PluginError (class_name p) ''on_after_render'' msg # printed)))"

text \<open>
  \<^verbatim>\<open>if isinstance(tags, str): tags = [tags]\<close> followed by \<^verbatim>\<open>all_tags.update(tags)\<close>:
  a string is one name, a list gives its elements, a mapping its keys;
  anything else cannot be iterated, and a list or mapping cannot be a member of
  a set.
\<close>

definition set_add :: "yval \<Rightarrow> yval list \<Rightarrow> yval list" where
  "set_add v s = (if list_ex (\<lambda>x. py_eq x v) s then s else s @ [v])"

fun add_names :: "yval list \<Rightarrow> yval \<Rightarrow> error + yval list" where
  "add_names s (YStr t) = Inr (set_add (YStr t) s)"
| "add_names s (YList xs) =
     (if list_all hashable xs then Inr (fold set_add xs s) else Inl TypeError)"
| "add_names s (YMap m) = Inr (fold set_add (map (\<lambda>kv. YStr (fst kv)) m) s)"
| "add_names s v = Inl TypeError"

text \<open>
  The body of \<^verbatim>\<open>for res in results\<close>. \<^verbatim>\<open>OUTPUT_DIR / slug\<close> needs a string. The
  URL of the entry is computed after the file is written and the cache entry
  is set.
\<close>

definition post_out_path :: "string \<Rightarrow> pure_path" where
  "post_out_path slug = path_div (path_div OUTPUT_DIR slug) ''index.html''"

definition process_result ::
  "env \<Rightarrow> generator \<Rightarrow> content \<Rightarrow> bool \<Rightarrow> bstate \<Rightarrow> render_result \<Rightarrow> error option \<times> bstate" where
  "process_result E G C force st res =
     (case r_slug res of
        YStr slug \<Rightarrow>
         (let out_path = post_out_path slug in
          case run_after_render (plugins G) res (r_html res) of
            (html, printed) \<Rightarrow>
             (let st1 = st\<lparr>console := console st @ printed\<rparr> in
              if \<not> truthy (dict_get (r_meta res) ''draft'' (YBool False)) \<or> force then
                (let st2 = write_file (path_str out_path) html st1 in
                 case read_file C (r_src res) of
                   None \<Rightarrow> (Some (FileNotFoundError (r_src res)), st2)
                 | Some text \<Rightarrow>
                    (let st3 = st2\<lparr>cache := (cache st2)(r_src res \<mapsto>
                                        \<lparr>ce_mtime = st_mtime E (r_src res),
                                         ce_hash = compute_hash E text,
                                         ce_output = path_str out_path\<rparr>)\<rparr> in
                     case relative_to out_path OUTPUT_DIR of
                       Inl e \<Rightarrow> (Some e, st3)
                     | Inr rel \<Rightarrow>
                        (let st4 = st3\<lparr>raw_post_list := raw_post_list st3 @
                                          [(r_meta res, ''/'' @ path_str rel)]\<rparr> in
                         case add_names (all_tags st4)
                                (dict_get (r_meta res) ''tags'' (YList [])) of
                           Inl e \<Rightarrow> (Some e, st4)
                         | Inr ts \<Rightarrow>
                            (case add_names (all_categories st4)
                                    (dict_get (r_meta res) ''category'' (YList [])) of
                               Inl e \<Rightarrow> (Some e, st4\<lparr>all_tags := ts\<rparr>)
                             | Inr cs \<Rightarrow>
                                 (None, st4\<lparr>all_tags := ts, all_categories := cs\<rparr>)))))
              else (None, st1)))
      | _ \<Rightarrow> (Some TypeError, st))"

fun process_results ::
  "env \<Rightarrow> generator \<Rightarrow> content \<Rightarrow> bool \<Rightarrow> bstate \<Rightarrow> render_result list \<Rightarrow> error option \<times> bstate" where
  "process_results E G C force st [] = (None, st)"
| "process_results E G C force st (res # rs) =
     and_then (process_result E G C force st res) (\<lambda>st'. process_results E G C force st' rs)"

definition copy_static :: "env \<Rightarrow> generator \<Rightarrow> bstate \<Rightarrow> bstate" where
  "copy_static E G st =
     fold (\<lambda>item. write_file (''public/static/'' @ fst item) (snd item))
       (theme_static E (theme_dir G)) st"

subsection \<open>Sorting\<close>

text \<open>
  \<^verbatim>\<open>a < b\<close> on two values: strings by code points, dates with dates, datetimes
  with datetimes when both or neither carry a time zone, integers and booleans
  as numbers. Every other pair has no order (\<open>None\<close>).
\<close>

fun as_number :: "yval \<Rightarrow> int option" where
  "as_number (YInt n) = Some n"
| "as_number (YBool b) = Some (if b then 1 else 0)"
| "as_number v = None"

fun py_lt :: "yval \<Rightarrow> yval \<Rightarrow> bool option" where
  "py_lt (YStr a) (YStr b) = Some (a < b)"
| "py_lt (YDate a) (YDate b) = Some (a < b)"
| "py_lt (YDateTime za a) (YDateTime zb b) = (if za = zb then Some (a < b) else None)"
| "py_lt a b =
     (case (as_number a, as_number b) of
        (Some x, Some y) \<Rightarrow> Some (x < y)
      | _ \<Rightarrow> None)"

text \<open>
  \<^verbatim>\<open>sorted(xs, key=.., reverse=..)\<close> is a stable sort that compares keys with
  \<^verbatim>\<open><\<close> only; with \<^verbatim>\<open>reverse=True\<close> it sorts the reversed list and reverses the
  result. The stable sort is written as insertion from the right. With fewer
  than two elements nothing is compared. When two keys have no order the sort
  raises \<^verbatim>\<open>TypeError\<close>. Keys that are lists compare element by element in
  Python and may raise or not depending on which pairs the sort looks at; they
  are outside this model.
\<close>

fun is_list :: "yval \<Rightarrow> bool" where
  "is_list (YList xs) = True"
| "is_list v = False"

fun insort_lt :: "('a \<Rightarrow> yval) \<Rightarrow> 'a \<Rightarrow> 'a list \<Rightarrow> 'a list" where
  "insort_lt key x [] = [x]"
| "insort_lt key x (y # ys) =
     (if py_lt (key y) (key x) = Some True then y # insort_lt key x ys else x # y # ys)"

definition stable_sort :: "('a \<Rightarrow> yval) \<Rightarrow> 'a list \<Rightarrow> 'a list" where
  "stable_sort key xs = foldr (insort_lt key) xs []"

definition py_sorted :: "('a \<Rightarrow> yval) \<Rightarrow> bool \<Rightarrow> 'a list \<Rightarrow> error + 'a list" where
  "py_sorted key reverse xs =
     (if length xs < 2 then Inr xs
      else if list_ex (\<lambda>x. is_list (key x)) xs then Inl Unmodelled
      else if list_all (\<lambda>x. list_all (\<lambda>y. py_lt (key x) (key y) \<noteq> None) xs) xs
      then Inr (if reverse then rev (stable_sort key (rev xs)) else stable_sort key xs)
      else Inl TypeError)"

text \<open>\<^verbatim>\<open>key=lambda p: p['meta'].get('date', datetime(1970, 1, 1))\<close>.\<close>

definition date_key :: "post_entry \<Rightarrow> yval" where
  "date_key p = dict_get (fst p) ''date'' (YDateTime False 0)"

definition home_post_list :: "post_entry list \<Rightarrow> error + post_entry list" where
  "home_post_list raw = py_sorted date_key True raw"

subsection \<open>Home index, tag pages, category pages\<close>

definition entry_val :: "post_entry \<Rightarrow> yval" where
  "entry_val p = YMap [(''meta'', YMap (fst p)), (''url'', YStr (snd p))]"

definition render_home :: "env \<Rightarrow> generator \<Rightarrow> yval \<Rightarrow> bstate \<Rightarrow> error option \<times> bstate" where
  "render_home E G site_meta st =
     (case theme_templates E (theme_dir G) ''index.html'' of
        None \<Rightarrow> (Some (TemplateNotFound ''index.html''), st)
      | Some index_tpl \<Rightarrow>
         (case home_post_list (raw_post_list st) of
            Inl e \<Rightarrow> (Some e, st)
          | Inr post_list \<Rightarrow>
             (case py_get site_meta ''title'' YNull of
                Inl e \<Rightarrow> (Some e, st)
              | Inr title \<Rightarrow>
                 (case py_sorted (\<lambda>v. v) False (all_tags st) of
                    Inl e \<Rightarrow> (Some e, st)
                  | Inr tags \<Rightarrow>
                     (case py_sorted (\<lambda>v. v) False (all_categories st) of
                        Inl e \<Rightarrow> (Some e, st)
                      | Inr cats \<Rightarrow>
                         (case index_tpl [(''posts'', YList (map entry_val post_list)),
                                          (''site'', site_meta),
                                          (''page'', YMap [(''title'', title), (''banner'', YNull)]),
                                          (''all_tags'', YList tags),
                                          (''all_categories'', YList cats)] of
                            Inl e \<Rightarrow> (Some e, st)
                          | Inr index_html \<Rightarrow>
                              (None, write_file ''public/index.html'' index_html st)))))))"

text \<open>
  \<^verbatim>\<open>tag in p["meta"].get("tags", [])\<close>: inside a string it asks whether the
  left-hand string occurs in it, inside a list whether an element equals it,
  inside a mapping whether it is a key.
\<close>

fun occurs_in :: "string \<Rightarrow> string \<Rightarrow> bool" where
  "occurs_in u [] = (u = [])"
| "occurs_in u (c # cs) = (startswith (c # cs) u \<or> occurs_in u cs)"

fun py_in :: "yval \<Rightarrow> yval \<Rightarrow> error + bool" where
  "py_in t (YStr s) = (case t of YStr u \<Rightarrow> Inr (occurs_in u s) | _ \<Rightarrow> Inl TypeError)"
| "py_in t (YList xs) = Inr (list_ex (\<lambda>x. py_eq x t) xs)"
| "py_in t (YMap m) = Inr (list_ex (\<lambda>kv. py_eq (YStr (fst kv)) t) m)"
| "py_in t v = Inl TypeError"

text \<open>
  \<^verbatim>\<open>[p for p in raw_post_list if name in p["meta"].get(field, [])]\<close>, for the field
  \<^verbatim>\<open>"tags"\<close> or \<^verbatim>\<open>"category"\<close>.
\<close>

fun posts_for :: "string \<Rightarrow> yval \<Rightarrow> post_entry list \<Rightarrow> error + post_entry list" where
  "posts_for field name [] = Inr []"
| "posts_for field name (p # ps) =
     (case py_in name (dict_get (fst p) field (YList [])) of
        Inl e \<Rightarrow> Inl e
      | Inr b \<Rightarrow>
         (case posts_for field name ps of
            Inl e \<Rightarrow> Inl e
          | Inr r \<Rightarrow> Inr (if b then p # r else r)))"

text \<open>
  The tag pages and the category pages are the same code twice, apart from
  these constants: the template, the metadata field, the directory under
  \<^verbatim>\<open>public/\<close>, the keyword that carries the name, the keyword that carries the
  list of all names, and the two page titles (Chinese, in UTF-8).
\<close>

record taxonomy =
  tx_template :: string
  tx_field :: string
  tx_dir :: string
  tx_kw :: string
  tx_all_kw :: string
  tx_title :: string
  tx_index_title :: string

definition tag_pages :: taxonomy where
  "tag_pages =
     \<lparr>tx_template = ''tags.html'', tx_field = ''tags'', tx_dir = ''tag'', tx_kw = ''tag'',
      tx_all_kw = ''all_tags'',
      tx_title = [CHR 0xE6, CHR 0xA0, CHR 0x87, CHR 0xE7, CHR 0xAD, CHR 0xBE,
                  CHR 0xEF, CHR 0xBC, CHR 0x9A],
      tx_index_title = [CHR 0xE6, CHR 0x89, CHR 0x80, CHR 0xE6, CHR 0x9C, CHR 0x89,
                        CHR 0xE6, CHR 0xA0, CHR 0x87, CHR 0xE7, CHR 0xAD, CHR 0xBE]\<rparr>"

definition category_pages :: taxonomy where
  "category_pages =
     \<lparr>tx_template = ''category.html'', tx_field = ''category'', tx_dir = ''category'',
      tx_kw = ''category'', tx_all_kw = ''all_categories'',
      tx_title = [CHR 0xE5, CHR 0x88, CHR 0x86, CHR 0xE7, CHR 0xB1, CHR 0xBB,
                  CHR 0xEF, CHR 0xBC, CHR 0x9A],
      tx_index_title = [CHR 0xE6, CHR 0x89, CHR 0x80, CHR 0xE6, CHR 0x9C, CHR 0x89,
                        CHR 0xE5, CHR 0x88, CHR 0x86, CHR 0xE7, CHR 0xB1, CHR 0xBB]\<rparr>"

text \<open>One round of \<^verbatim>\<open>for tag in all_tags\<close> (or \<^verbatim>\<open>for cat in all_categories\<close>).\<close>

definition render_name_page ::
  "taxonomy \<Rightarrow> template \<Rightarrow> yval \<Rightarrow> yval \<Rightarrow> bstate \<Rightarrow> error option \<times> bstate" where
  "render_name_page tx tpl site_meta name st =
     (case posts_for (tx_field tx) name (raw_post_list st) of
        Inl e \<Rightarrow> (Some e, st)
      | Inr members \<Rightarrow>
         (case name of
            YStr n \<Rightarrow>
             (case tpl [(tx_kw tx, name),
                        (''posts'', YList (map entry_val members)),
                        (''site'', site_meta),
                        (''page'', YMap [(''title'', YStr (tx_title tx @ n))])] of
                Inl e \<Rightarrow> (Some e, st)
              | Inr html \<Rightarrow>
                  (None, write_file
                           (path_str (path_div (path_div (path_div OUTPUT_DIR (tx_dir tx)) n)
                                        ''index.html''))
                           html st))
          | _ \<Rightarrow> (Some TypeError, st)))"

fun render_name_pages ::
  "taxonomy \<Rightarrow> template \<Rightarrow> yval \<Rightarrow> yval list \<Rightarrow> bstate \<Rightarrow> error option \<times> bstate" where
  "render_name_pages tx tpl site_meta [] st = (None, st)"
| "render_name_pages tx tpl site_meta (name # names) st =
     and_then (render_name_page tx tpl site_meta name st)
       (render_name_pages tx tpl site_meta names)"

text \<open>
  A whole taxonomy section of \<^verbatim>\<open>build\<close>: load the template, write one page for
  each name, then the index page of all names.
\<close>

definition render_taxonomy ::
  "env \<Rightarrow> generator \<Rightarrow> taxonomy \<Rightarrow> yval \<Rightarrow> yval list \<Rightarrow> bstate \<Rightarrow> error option \<times> bstate" where
  "render_taxonomy E G tx site_meta names st =
     (case theme_templates E (theme_dir G) (tx_template tx) of
        None \<Rightarrow> (Some (TemplateNotFound (tx_template tx)), st)
      | Some tpl \<Rightarrow>
         and_then (render_name_pages tx tpl site_meta names st)
           (\<lambda>st'. case py_sorted (\<lambda>v. v) False names of
                     Inl e \<Rightarrow> (Some e, st')
                   | Inr sorted_names \<Rightarrow>
                      (case tpl [(tx_kw tx, YNull),
                                 (''posts'', YList []),
                                 (''site'', site_meta),
                                 (''page'', YMap [(''title'', YStr (tx_index_title tx))]),
                                 (tx_all_kw tx, YList sorted_names)] of
                         Inl e \<Rightarrow> (Some e, st')
                       | Inr html \<Rightarrow>
                          (None, write_file (''public/'' @ tx_dir tx @ ''/index.html'') html st'))))"

subsection \<open>End of the build\<close>

definition save_cache :: "bstate \<Rightarrow> bstate" where
  "save_cache st = st\<lparr>cache_file := Some (cache st)\<rparr>"

text \<open>
  The loop around \<^verbatim>\<open>on_build_finished\<close>: a plugin's files are written under
  \<^verbatim>\<open>public/\<close>; an exception is printed and the next plugin runs.
\<close>

fun run_build_finished :: "generator \<Rightarrow> plugin list \<Rightarrow> bstate \<Rightarrow> bstate" where
  "run_build_finished G [] st = st"
| "run_build_finished G (p # ps) st =
     (case on_build_finished p (config G) (cache st) of
        Inl msg \<Rightarrow>
          run_build_finished G ps
            (st\<lparr>console := console st @ [PluginError (class_name p) ''on_build_finished'' msg]\<rparr>)
      | Inr files \<Rightarrow>
          run_build_finished G ps
            (fold (\<lambda>item. write_file (''public/'' @ fst item) (snd item)) files st))"

text \<open>
  Everything in \<^verbatim>\<open>build\<close> after the pool has returned: the loop over the
  results, the static files, the home index, the tag and category pages, the
  cache file, the build-finished hooks.
\<close>

definition finish_build ::
  "env \<Rightarrow> generator \<Rightarrow> content \<Rightarrow> bool \<Rightarrow> yval \<Rightarrow> render_result list \<Rightarrow> bstate
     \<Rightarrow> error option \<times> bstate" where
  "finish_build E G C force site_meta results st =
     and_then (process_results E G C force
                 (st\<lparr>raw_post_list := [], all_tags := [], all_categories := []\<rparr>) results)
       (\<lambda>st1. and_then (render_home E G site_meta (copy_static E G st1))
         (\<lambda>st2. and_then (render_taxonomy E G tag_pages site_meta (all_tags st2) st2)
           (\<lambda>st3. and_then (render_taxonomy E G category_pages site_meta (all_categories st3) st3)
             (\<lambda>st4. (None, run_build_finished G (plugins G) (save_cache st4))))))"

text \<open>
  \<^verbatim>\<open>Blazemark.build(force)\<close>. The first component of the result is the exception
  that ended the build, if one did; the second is the state the build left.
  The pool runs every task, also when one of them raises, so the console
  receives what every worker printed; the lines are taken in the order of
  completion.
\<close>

definition build ::
  "env \<Rightarrow> generator \<Rightarrow> content \<Rightarrow> bool \<Rightarrow> bstate \<Rightarrow> error option \<times> bstate" where
  "build E G C force st =
     (let site_meta = site_meta_of E G;
          all_files = fst (discover_posts_and_pages C) @ snd (discover_posts_and_pages C)
      in case collect_tasks E C force (cache st) all_files of
           (r, printed) \<Rightarrow>
            (let st0 = st\<lparr>console := console st @ printed\<rparr> in
             case r of
               Inl e \<Rightarrow> (Some e, st0)
             | Inr tasks \<Rightarrow>
                (let st1 = st0\<lparr>console := console st0 @
                              concat (map (worker_printed E C) (as_completed E tasks))\<rparr> in
                 case render_all E C (theme_dir G) site_meta (as_completed E tasks) of
                   Inl e \<Rightarrow> (Some e, st1)
                 | Inr results \<Rightarrow> finish_build E G C force site_meta results st1)))"

text \<open>
  One run of the command \<^verbatim>\<open>build\<close>: a new generator loads the cache file, then
  builds on the output tree it finds.
\<close>

definition start_state :: "(string \<rightharpoonup> string) \<times> cache_posts option \<Rightarrow> bstate" where
  "start_state disk =
     \<lparr>cache = load_cache (snd disk), public = fst disk, cache_file = snd disk,
      console = [], raw_post_list = [], all_tags = [], all_categories = []\<rparr>"

definition run_build ::
  "env \<Rightarrow> generator \<Rightarrow> content \<Rightarrow> bool \<Rightarrow> (string \<rightharpoonup> string) \<times> cache_posts option
     \<Rightarrow> error option \<times> bstate" where
  "run_build E G C force disk = build E G C force (start_state disk)"

subsection \<open>Vocabulary of the properties\<close>

text \<open>
  A document is a draft when the \<^verbatim>\<open>draft\<close> field of its front matter is truthy.
\<close>

definition is_draft :: "env \<Rightarrow> string \<Rightarrow> bool" where
  "is_draft E text =
     (case py_get (fst (parse_front_matter E text)) ''draft'' (YBool False) of
        Inr d \<Rightarrow> truthy d
      | Inl e \<Rightarrow> False)"

text \<open>The entry that \<^verbatim>\<open>raw_post_list\<close> receives for a written result.\<close>

definition entry_of :: "render_result \<Rightarrow> post_entry" where
  "entry_of res =
     (r_meta res,
      case r_slug res of
        YStr slug \<Rightarrow>
          (case relative_to (post_out_path slug) OUTPUT_DIR of
             Inr rel \<Rightarrow> ''/'' @ path_str rel
           | Inl e \<Rightarrow> [])
      | _ \<Rightarrow> [])"

text \<open>
  A result is written (output file, cache entry, entry of \<^verbatim>\<open>raw_post_list\<close>) when
  its document is not a draft or the force flag is set.
\<close>

definition written :: "bool \<Rightarrow> render_result \<Rightarrow> bool" where
  "written force res = (\<not> truthy (dict_get (r_meta res) ''draft'' (YBool False)) \<or> force)"

text \<open>The keys of a collection can all be compared with each other.\<close>

definition comparable :: "('a \<Rightarrow> yval) \<Rightarrow> 'a set \<Rightarrow> bool" where
  "comparable key S = (\<forall>x\<in>S. \<forall>y\<in>S. py_lt (key x) (key y) \<noteq> None)"

text \<open>Two sort keys are tied when neither is smaller than the other.\<close>

definition tied :: "yval \<Rightarrow> yval \<Rightarrow> bool" where
  "tied a b = (py_lt a b = Some False \<and> py_lt b a = Some False)"

text \<open>
  The test of the change-detection cache, in the words of its description: the
  force flag is set, or no entry exists for the path, or the stored hash is
  not the hash of the raw text. A discovered file is dispatched when it can be
  read, is not a draft unless the force flag is set, and passes this test.
\<close>

definition needs_render :: "env \<Rightarrow> cache_posts \<Rightarrow> bool \<Rightarrow> string \<Rightarrow> string \<Rightarrow> bool" where
  "needs_render E c force path raw =
     (force \<or> (case c path of
                  None \<Rightarrow> True
                | Some ce \<Rightarrow> ce_hash ce \<noteq> compute_hash E raw))"

definition dispatched :: "env \<Rightarrow> content \<Rightarrow> bool \<Rightarrow> cache_posts \<Rightarrow> string \<Rightarrow> bool" where
  "dispatched E C force c f =
     (case read_file C f of
        None \<Rightarrow> False
      | Some raw \<Rightarrow> (force \<or> \<not> is_draft E raw) \<and> needs_render E c force f raw)"

text \<open>
  A result is genuine when its source can be read and its \<^verbatim>\<open>draft\<close> field is
  the one of the source. A cache entry is sound when its path is a readable
  document that is not a draft, its hash is the hash of the document and its
  output file exists. The entries that differ from a given cache are fresh.
  One state keeps another when the cache and the cache file are the same and
  no output file is lost.
\<close>

definition genuine :: "env \<Rightarrow> content \<Rightarrow> render_result \<Rightarrow> bool" where
  "genuine E C res =
     (case read_file C (r_src res) of
        None \<Rightarrow> False
      | Some raw \<Rightarrow> truthy (dict_get (r_meta res) ''draft'' (YBool False)) = is_draft E raw)"

definition entry_sound :: "env \<Rightarrow> content \<Rightarrow> bstate \<Rightarrow> string \<Rightarrow> bool" where
  "entry_sound E C st p =
     (case (read_file C p, cache st p) of
        (Some raw, Some ce) \<Rightarrow>
          \<not> is_draft E raw \<and> ce_hash ce = compute_hash E raw \<and> ce_output ce \<in> dom (public st)
      | _ \<Rightarrow> False)"

definition fresh_entries_sound :: "env \<Rightarrow> content \<Rightarrow> cache_posts \<Rightarrow> bstate \<Rightarrow> bool" where
  "fresh_entries_sound E C c0 st = (\<forall>p. cache st p = c0 p \<or> entry_sound E C st p)"

definition keeps :: "bstate \<Rightarrow> bstate \<Rightarrow> bool" where
  "keeps st st' =
     (cache st' = cache st \<and> cache_file st' = cache_file st
      \<and> dom (public st) \<subseteq> dom (public st'))"

text \<open>
  What a build leaves on disk: the cache file it found, or a cache file that
  differs from the loaded cache only in sound entries.
\<close>

definition disk_sound :: "env \<Rightarrow> content \<Rightarrow> cache_posts \<Rightarrow> cache_posts option \<Rightarrow> bstate \<Rightarrow> bool" where
  "disk_sound E C c0 cf0 st =
     (cache_file st = cf0 \<or> (cache_file st = Some (cache st) \<and> fresh_entries_sound E C c0 st))"

subsection \<open>A small site to run the build on\<close>

text \<open>
  A document with a one-line front matter block; and a loader that knows the
  blocks used below and rejects everything else.
\<close>

definition fm_doc :: "string \<Rightarrow> string \<Rightarrow> string" where
  "fm_doc block body =
     ''---'' @ [CHR 0x0A] @ block @ [CHR 0x0A] @ ''---'' @ [CHR 0x0A] @ body"

definition demo_yaml :: "string \<Rightarrow> string + yval" where
  "demo_yaml s =
     (let b = filter (\<lambda>c. c \<noteq> CHR 0x0A) s in
      if b = ''title: A'' then Inr (YMap [(''title'', YStr ''A'')])
      else if b = ''title: 5'' then Inr (YMap [(''title'', YInt 5)])
      else if b = ''draft: true'' then Inr (YMap [(''draft'', YBool True)])
      else if b = ''draft: false'' then Inr (YMap [(''draft'', YBool False)])
      else if b = ''slug:'' then Inr (YMap [(''slug'', YNull)])
      else if b = ''tags: python'' then Inr (YMap [(''tags'', YStr ''python'')])
      else if b = ''tags: [py]'' then Inr (YMap [(''tags'', YList [YStr ''py''])])
      else if b = ''date: 1969-12-31 00:00:00''
      then Inr (YMap [(''date'', YDateTime False (- 86400000000))])
      else if b = [] then Inr YNull
      else Inl ''cannot parse'')"

text \<open>
  A theme: the post page is the converted body, and needs a title that is a
  string; the index, tag and category pages are the URLs of their posts, one
  after the other.
\<close>

fun demo_url :: "yval \<Rightarrow> string" where
  "demo_url (YMap e) = (case map_of e ''url'' of Some (YStr u) \<Rightarrow> u | _ \<Rightarrow> [])"
| "demo_url v = []"

definition demo_list_tpl :: template where
  "demo_list_tpl ctx =
     (case map_of ctx ''posts'' of
        Some (YList ps) \<Rightarrow> Inr (concat (map demo_url ps))
      | _ \<Rightarrow> Inl (RenderError ''posts''))"

definition demo_post_tpl :: template where
  "demo_post_tpl ctx =
     (case map_of ctx ''post'' of
        Some (YMap p) \<Rightarrow>
          (case (map_of p ''title'', map_of p ''content'') of
             (Some (YStr t), Some (YStr h)) \<Rightarrow> Inr h
           | _ \<Rightarrow> Inl (RenderError ''title''))
      | _ \<Rightarrow> Inl (RenderError ''post''))"

definition demo_templates :: "string \<Rightarrow> string \<Rightarrow> template option" where
  "demo_templates theme name =
     (if name = ''post.html'' then Some demo_post_tpl
      else if name = ''index.html'' \<or> name = ''tags.html'' \<or> name = ''category.html''
      then Some demo_list_tpl
      else None)"

text \<open>
  A machine with four CPUs: the digest of a text is the text itself, markdown
  and the code-block substitution leave the body as it is, no theme has static
  files, and the pool delivers the tasks in the order of submission.
\<close>

definition demo_env :: env where
  "demo_env =
     \<lparr>yaml_safe_load = demo_yaml, sha1_hexdigest = (\<lambda>s. s),
      markdown_to_html = (\<lambda>b. Inr b), re_sub_pre_lang = (\<lambda>h. h),
      format_value = (\<lambda>v. ''?''), theme_templates = demo_templates,
      theme_static = (\<lambda>d. []), st_mtime = (\<lambda>p. 0), now_year = 2026,
      as_completed = (\<lambda>ts. ts), cpu_count = 4\<rparr>"

text \<open>The same machine when the pool finishes the tasks in reverse.\<close>

definition demo_env_rev :: env where
  "demo_env_rev = demo_env\<lparr>as_completed := rev\<rparr>"



definition demo_gen :: generator where
  "demo_gen = \<lparr>config = [], theme_dir = ''themes/default'', plugins = [], workers = 2\<rparr>"


definition site_of :: "(string \<times> string) list \<Rightarrow> content" where
  "site_of ps = \<lparr>posts = ps, pages = []\<rparr>"

text \<open>
  Content directories: one post; a post tagged \<^verbatim>\<open>python\<close> with a scalar and one
  tagged \<^verbatim>\<open>py\<close> in a list; a post next to one whose title is a number; a post
  dated before 1970 next to one without a date; two posts without front
  matter; a draft, and the same file with the flag turned off.
\<close>

definition blog_one :: content where
  "blog_one = site_of [(''content/a.md'', fm_doc ''title: A'' ''hello'')]"

definition blog_tags :: content where
  "blog_tags = site_of [(''content/a.md'', fm_doc ''tags: python'' ''A''),
                        (''content/b.md'', fm_doc ''tags: [py]'' ''B'')]"

definition blog_bad_title :: content where
  "blog_bad_title = site_of [(''content/a.md'', fm_doc ''title: A'' ''hello''),
                             (''content/b.md'', fm_doc ''title: 5'' ''B'')]"

definition blog_old :: content where
  "blog_old = site_of [(''content/a.md'', fm_doc ''date: 1969-12-31 00:00:00'' ''A''),
                       (''content/b.md'', ''B'')]"

definition blog_plain :: content where
  "blog_plain = site_of [(''content/a.md'', ''A''), (''content/b.md'', ''B'')]"

definition blog_draft :: content where
  "blog_draft = site_of [(''content/d.md'', fm_doc ''draft: true'' ''x'')]"

definition blog_undrafted :: content where
  "blog_undrafted = site_of [(''content/d.md'', fm_doc ''draft: false'' ''x'')]"

text \<open>What the workers return for the fourth of them.\<close>

definition old_results :: "render_result list" where
  "old_results =
     [\<lparr>r_src = ''content/a.md'', r_slug = YStr ''a'', r_html = ''A'',
       r_meta = [(''date'', YDateTime False (- 86400000000)), (''content_raw'', YStr ''A'')],
       r_url = ''/a/index.html''\<rparr>,
      \<lparr>r_src = ''content/b.md'', r_slug = YStr ''b'', r_html = ''B'',
       r_meta = [(''content_raw'', YStr ''B'')],
       r_url = ''/b/index.html''\<rparr>]"

definition empty_disk :: "(string \<rightharpoonup> string) \<times> cache_posts option" where
  "empty_disk = (Map.empty, None)"

definition disk_after :: "error option \<times> bstate \<Rightarrow> (string \<rightharpoonup> string) \<times> cache_posts option" where
  "disk_after r = (public (snd r), cache_file (snd r))"

section \<open>Properties\<close>

subsection \<open>Front matter that is absent or does not parse\<close>

text \<open>
  C4, as the code has it. \<^verbatim>\<open>parse_front_matter\<close> has no failing result: it always
  returns metadata and a body. When the text does not begin with \<^verbatim>\<open>---\<close>, or
  has no second \<^verbatim>\<open>---\<close>, the metadata is the empty mapping, the body is the text
  unchanged and nothing is printed. When the block between the first two
  delimiters does not parse, the metadata is the empty mapping and the error is
  printed, but the body is what follows the second delimiter, without its
  leading line feeds; it is not the original text.
\<close>

theorem parse_front_matter_fallback:
  "(\<not> startswith text ''---'' \<longrightarrow> parse_front_matter E text = (YMap [], text, []))
   \<and> (length (py_split ''---'' 2 text) < 3 \<longrightarrow> parse_front_matter E text = (YMap [], text, []))
   \<and> (startswith text ''---'' \<and> py_split ''---'' 2 text = [p0, block, rest]
        \<and> yaml_safe_load E block = Inl msg
      \<longrightarrow> parse_front_matter E text = (YMap [], lstrip_nl rest, [FrontMatterError msg]))"
  by (auto simp: parse_front_matter_def Let_def)

text \<open>
  The three cases on a plain text, on a text with a single delimiter, and on
  a document whose block is an unclosed bracket.
\<close>

theorem parse_front_matter_fallback_witness:
  "parse_front_matter demo_env ''hello'' = (YMap [], ''hello'', [])
   \<and> parse_front_matter demo_env ''---x'' = (YMap [], ''---x'', [])
   \<and> parse_front_matter demo_env (fm_doc ''['' ''body'')
       = (YMap [], ''body'', [FrontMatterError ''cannot parse''])"
proof -
  have a: "\<not> startswith ''hello'' ''---''" by code_simp
  have b: "length (py_split ''---'' 2 ''---x'') < 3" by code_simp
  have c: "startswith (fm_doc ''['' ''body'') ''---''
      \<and> py_split ''---'' 2 (fm_doc ''['' ''body'')
          = [[], [CHR 0x0A, CHR ''['', CHR 0x0A], CHR 0x0A # ''body'']
      \<and> yaml_safe_load demo_env [CHR 0x0A, CHR ''['', CHR 0x0A] = Inl ''cannot parse''"
    by code_simp
  have d: "lstrip_nl (CHR 0x0A # ''body'') = ''body''" by code_simp
  from parse_front_matter_fallback [of "''hello''" demo_env] a
  have 1: "parse_front_matter demo_env ''hello'' = (YMap [], ''hello'', [])" by blast
  from parse_front_matter_fallback [of "''---x''" demo_env] b
  have 2: "parse_front_matter demo_env ''---x'' = (YMap [], ''---x'', [])" by blast
  from parse_front_matter_fallback [of "fm_doc ''['' ''body''" demo_env "[]"
      "[CHR 0x0A, CHR ''['', CHR 0x0A]" "CHR 0x0A # ''body''" "''cannot parse''"] c d
  have 3: "parse_front_matter demo_env (fm_doc ''['' ''body'')
       = (YMap [], ''body'', [FrontMatterError ''cannot parse''])" by simp
  from 1 2 3 show ?thesis by blast
qed

text \<open>
  C4 as stated fails: the block of this document does not parse, and the body
  returned is \<^verbatim>\<open>body\<close>, not the document.
\<close>

theorem parse_front_matter_body_counterexample:
  "yaml_safe_load demo_env (py_split ''---'' 2 (fm_doc ''['' ''body'') ! 1) = Inl ''cannot parse''
   \<and> fst (snd (parse_front_matter demo_env (fm_doc ''['' ''body''))) = ''body''
   \<and> fm_doc ''['' ''body'' \<noteq> ''body''"
  by code_simp

subsection \<open>Size of the worker pool\<close>

text \<open>
  C8, as the code has it. Without an explicit \<^verbatim>\<open>workers\<close> argument the pool has
  \<^verbatim>\<open>min(cpu, max(2, n))\<close> workers, \<^verbatim>\<open>n\<close> the number of markdown files directly under
  the content directory. That never exceeds the CPU count, and it does not
  exceed \<^verbatim>\<open>n\<close> once there are two files or more.
\<close>

theorem optimal_workers_bounds:
  "init_workers E C None = min (cpu_count E) (max 2 (length (posts C)))
   \<and> optimal_workers E C \<le> cpu_count E
   \<and> (2 \<le> length (posts C) \<longrightarrow> optimal_workers E C \<le> length (posts C))"
  by (auto simp: optimal_workers_def init_workers_def)

text \<open>Two files on four CPUs: two workers.\<close>

theorem optimal_workers_bounds_witness:
  "2 \<le> length (posts (site_of [(''content/a.md'', ''hello''), (''content/b.md'', ''world'')]))
   \<and> optimal_workers demo_env (site_of [(''content/a.md'', ''hello''), (''content/b.md'', ''world'')])
       \<le> length (posts (site_of [(''content/a.md'', ''hello''), (''content/b.md'', ''world'')]))"
proof -
  have h: "2 \<le> length (posts (site_of [(''content/a.md'', ''hello''), (''content/b.md'', ''world'')]))"
    by code_simp
  from optimal_workers_bounds
    [of demo_env "site_of [(''content/a.md'', ''hello''), (''content/b.md'', ''world'')]"] h
  show ?thesis by blast
qed

text \<open>
  C8 as stated fails: one document on four CPUs gets a pool of two workers.
\<close>

theorem optimal_workers_counterexample:
  "length (posts (site_of [(''content/a.md'', ''hello'')])) = 1
   \<and> cpu_count demo_env = 4
   \<and> optimal_workers demo_env (site_of [(''content/a.md'', ''hello'')]) = 2"
  by code_simp

subsection \<open>Slug of a rendered document\<close>

text \<open>
  C10. When the worker returns a result, the front matter is a mapping, and
  the slug of the result is the value of its \<^verbatim>\<open>slug\<close> field when that field is
  present and truthy; when the field is present but falsy (empty string,
  \<^verbatim>\<open>None\<close>, zero, \<^verbatim>\<open>False\<close>, empty list) or absent, the slug is the stem of the
  file name.
\<close>

theorem worker_slug_resolution:
  assumes "render_post_worker E C theme site src = Inr res"
  shows "\<exists>raw m. read_file C src = Some raw \<and> fst (parse_front_matter E raw) = YMap m
           \<and> r_slug res = (case map_of m ''slug'' of
                              Some v \<Rightarrow> if truthy v then v else YStr (safe_slug src)
                            | None \<Rightarrow> YStr (safe_slug src))"
proof -
  from assms obtain raw where t: "read_file C src = Some raw"
    by (auto simp: render_post_worker_def split: option.splits)
  obtain meta body printed where p: "parse_front_matter E raw = (meta, body, printed)"
    by (cases "parse_front_matter E raw") auto
  from assms t p obtain slug where s: "resolve_slug meta src = Inr slug" and r: "r_slug res = slug"
    by (auto simp: render_post_worker_def Let_def split: sum.splits option.splits yval.splits)
  from s obtain m where m: "meta = YMap m"
    by (cases meta) (auto simp: resolve_slug_def)
  from s m have "slug = (case map_of m ''slug'' of
                              Some v \<Rightarrow> if truthy v then v else YStr (safe_slug src)
                            | None \<Rightarrow> YStr (safe_slug src))"
    by (auto simp: resolve_slug_def safe_slug_def split: option.splits)
  with t p m r show ?thesis by auto
qed

text \<open>
  A document \<^verbatim>\<open>content/my-post.md\<close> whose front matter is \<^verbatim>\<open>slug:\<close> with no value:
  the field is present and is \<^verbatim>\<open>None\<close>, and the slug is \<^verbatim>\<open>my-post\<close>.
\<close>

theorem worker_slug_resolution_witness:
  "render_post_worker demo_env (site_of [(''content/my-post.md'', fm_doc ''slug:'' ''hi'')])
      ''themes/default'' (site_meta_of demo_env demo_gen) ''content/my-post.md''
     = Inr \<lparr>r_src = ''content/my-post.md'', r_slug = YStr ''my-post'', r_html = ''hi'',
            r_meta = [(''slug'', YNull), (''content_raw'', YStr ''hi'')],
            r_url = ''/my-post/index.html''\<rparr>
   \<and> fst (parse_front_matter demo_env (fm_doc ''slug:'' ''hi'')) = YMap [(''slug'', YNull)]
   \<and> \<not> truthy YNull
   \<and> safe_slug ''content/my-post.md'' = ''my-post''"
proof -
  have h: "render_post_worker demo_env (site_of [(''content/my-post.md'', fm_doc ''slug:'' ''hi'')])
      ''themes/default'' (site_meta_of demo_env demo_gen) ''content/my-post.md''
     = Inr \<lparr>r_src = ''content/my-post.md'', r_slug = YStr ''my-post'', r_html = ''hi'',
            r_meta = [(''slug'', YNull), (''content_raw'', YStr ''hi'')],
            r_url = ''/my-post/index.html''\<rparr>"
    by code_simp
  have r: "read_file (site_of [(''content/my-post.md'', fm_doc ''slug:'' ''hi'')]) ''content/my-post.md''
      = Some (fm_doc ''slug:'' ''hi'')"
    by code_simp
  have m: "fst (parse_front_matter demo_env (fm_doc ''slug:'' ''hi'')) = YMap [(''slug'', YNull)]"
    by code_simp
  from worker_slug_resolution [OF h] r m
  have "YStr ''my-post'' = YStr (safe_slug ''content/my-post.md'')" by auto
  with h m show ?thesis by simp
qed

subsection \<open>The chain of \<^verbatim>\<open>on_after_render\<close> hooks\<close>







subsection \<open>Which documents are rendered\<close>

lemma collect_tasks_filter:
  "fst (collect_tasks E C force c fs) = Inr tasks \<Longrightarrow> tasks = filter (dispatched E C force c) fs"
proof (induction fs arbitrary: tasks)
  case Nil
  then show ?case by simp
next
  case (Cons f fs)
  from Cons.prems obtain raw where rd: "read_file C f = Some raw"
    by (auto split: option.splits)
  obtain meta body printed where p: "parse_front_matter E raw = (meta, body, printed)"
    by (cases "parse_front_matter E raw") auto
  from Cons.prems rd p obtain d where d: "py_get meta ''draft'' (YBool False) = Inr d"
    by (auto split: sum.splits)
  obtain rest printed' where r: "collect_tasks E C force c fs = (rest, printed')"
    by (cases "collect_tasks E C force c fs") auto
  from Cons.prems rd p d r obtain ts where ts: "rest = Inr ts"
    by (auto split: sum.splits)
  from r ts Cons.IH have ih: "ts = filter (dispatched E C force c) fs" by simp
  have sel: "dispatched E C force c f \<longleftrightarrow>
      \<not> (truthy d \<and> \<not> force) \<and>
      (force \<or> (case c f of None \<Rightarrow> True | Some cached \<Rightarrow> ce_hash cached \<noteq> compute_hash E raw))"
    using rd p d by (auto simp: dispatched_def is_draft_def needs_render_def split: option.splits)
  from Cons.prems rd p d r ts
  have "tasks = (if dispatched E C force c f then f # ts else ts)"
    unfolding sel by (auto split: option.splits)
  with ih show ?case by simp
qed

text \<open>
  C5, as the code has it. When the loop over the discovered files ends without
  an exception, a file is dispatched to the workers if and only if it was
  discovered, and the force flag is set or the document is not a draft, and
  the force flag is set or no cache entry exists for its path or the stored
  hash differs from the hash of its raw text. A draft is not rendered without
  the force flag, cached or not.
\<close>

theorem collect_tasks_selects:
  assumes "fst (collect_tasks E C force c fs) = Inr tasks"
  shows "f \<in> set tasks \<longleftrightarrow>
           f \<in> set fs \<and> (\<exists>raw. read_file C f = Some raw \<and> (force \<or> \<not> is_draft E raw)
                              \<and> needs_render E c force f raw)"
  using collect_tasks_filter [OF assms] by (auto simp: dispatched_def split: option.splits)

text \<open>One document that is not a draft, on an empty cache: it is dispatched.\<close>

theorem collect_tasks_selects_witness:
  "fst (collect_tasks demo_env (site_of [(''content/a.md'', fm_doc ''title: A'' ''hello'')])
          False Map.empty [''content/a.md'']) = Inr [''content/a.md'']
   \<and> read_file (site_of [(''content/a.md'', fm_doc ''title: A'' ''hello'')]) ''content/a.md''
       = Some (fm_doc ''title: A'' ''hello'')
   \<and> \<not> is_draft demo_env (fm_doc ''title: A'' ''hello'')
   \<and> needs_render demo_env Map.empty False ''content/a.md'' (fm_doc ''title: A'' ''hello'')"
proof -
  let ?C = "site_of [(''content/a.md'', fm_doc ''title: A'' ''hello'')]"
  have h: "fst (collect_tasks demo_env ?C False Map.empty [''content/a.md'']) = Inr [''content/a.md'']"
    by code_simp
  have r: "read_file ?C ''content/a.md'' = Some (fm_doc ''title: A'' ''hello'')"
    by code_simp
  from collect_tasks_selects [OF h, of "''content/a.md''"] r
  have "\<not> is_draft demo_env (fm_doc ''title: A'' ''hello'')
     \<and> needs_render demo_env Map.empty False ''content/a.md'' (fm_doc ''title: A'' ''hello'')"
    by auto
  with h r show ?thesis by blast
qed

text \<open>
  C5 as stated fails: a discovered draft has no cache entry, so the test of
  the cache says render, and the build without the force flag dispatches
  nothing.
\<close>

theorem draft_not_dispatched_counterexample:
  "fst (discover_posts_and_pages (site_of [(''content/d.md'', fm_doc ''draft: true'' ''x'')]))
      = [''content/d.md'']
   \<and> load_cache None ''content/d.md'' = None
   \<and> needs_render demo_env (load_cache None) False ''content/d.md'' (fm_doc ''draft: true'' ''x'')
   \<and> fst (collect_tasks demo_env (site_of [(''content/d.md'', fm_doc ''draft: true'' ''x'')])
             False (load_cache None) [''content/d.md'']) = Inr []"
  by code_simp

subsection \<open>Facts about sorting\<close>

lemma py_lt_asym: "py_lt a b = Some True \<Longrightarrow> py_lt b a = Some False"
  by (cases a; cases b) (auto split: if_splits)

lemma py_lt_trans_le: "py_lt a b = Some True \<Longrightarrow> py_lt c b = Some False \<Longrightarrow> py_lt a c = Some True"
  by (cases a; cases b; cases c) (auto split: if_splits)

lemma tied_not_below: "py_lt y x = Some True \<Longrightarrow> tied x k \<Longrightarrow> \<not> tied y k"
  unfolding tied_def by (cases y; cases x; cases k) (auto split: if_splits)

lemma mset_insort_lt: "mset (insort_lt key x ys) = add_mset x (mset ys)"
  by (induction ys) auto

lemma mset_stable_sort: "mset (stable_sort key xs) = mset xs"
  unfolding stable_sort_def by (induction xs) (auto simp: mset_insort_lt)

lemma set_insort_lt: "set (insort_lt key x ys) = insert x (set ys)"
  by (induction ys) auto

lemma filter_tied_insort_lt:
  "filter (\<lambda>p. tied (key p) k) (insort_lt key x ys)
     = (if tied (key x) k then x # filter (\<lambda>p. tied (key p) k) ys
        else filter (\<lambda>p. tied (key p) k) ys)"
  by (induction ys) (auto dest: tied_not_below)

lemma filter_tied_stable_sort:
  "filter (\<lambda>p. tied (key p) k) (stable_sort key xs) = filter (\<lambda>p. tied (key p) k) xs"
  unfolding stable_sort_def by (induction xs) (auto simp: filter_tied_insort_lt)

lemma sorted_insort_lt:
  "sorted_wrt (\<lambda>a b. py_lt (key b) (key a) \<noteq> Some True) ys \<Longrightarrow>
   comparable key (insert x (set ys)) \<Longrightarrow>
   sorted_wrt (\<lambda>a b. py_lt (key b) (key a) \<noteq> Some True) (insort_lt key x ys)"
proof (induction ys)
  case Nil
  then show ?case by simp
next
  case (Cons y ys)
  have cmp: "comparable key (insert x (set ys))"
    using Cons.prems(2) by (auto simp: comparable_def)
  show ?case
  proof (cases "py_lt (key y) (key x) = Some True")
    case True
    with py_lt_asym have "py_lt (key x) (key y) \<noteq> Some True" by fastforce
    with True Cons cmp show ?thesis by (auto simp: set_insort_lt)
  next
    case False
    with Cons.prems(2) have yx: "py_lt (key y) (key x) = Some False"
      by (auto simp: comparable_def)
    have "py_lt (key z) (key x) \<noteq> Some True" if "z \<in> set ys" for z
    proof
      assume "py_lt (key z) (key x) = Some True"
      from py_lt_trans_le [OF this yx] have "py_lt (key z) (key y) = Some True" .
      with Cons.prems(1) that show False by auto
    qed
    with False Cons.prems(1) show ?thesis by auto
  qed
qed

lemma sorted_stable_sort:
  "comparable key (set xs) \<Longrightarrow>
   sorted_wrt (\<lambda>a b. py_lt (key b) (key a) \<noteq> Some True) (stable_sort key xs)"
proof (induction xs)
  case Nil
  then show ?case by (simp add: stable_sort_def)
next
  case (Cons x xs)
  then have "comparable key (set xs)" by (auto simp: comparable_def)
  with Cons.IH have s: "sorted_wrt (\<lambda>a b. py_lt (key b) (key a) \<noteq> Some True) (stable_sort key xs)" .
  have "set (stable_sort key xs) = set xs"
    using mset_stable_sort [of key xs] by (metis set_mset_mset)
  with Cons.prems have "comparable key (insert x (set (stable_sort key xs)))" by simp
  from sorted_insort_lt [OF s this] show ?case by (simp add: stable_sort_def)
qed

lemma py_sorted_reverse:
  assumes "py_sorted key True xs = Inr L"
  shows "mset L = mset xs"
    and "sorted_wrt (\<lambda>p q. py_lt (key p) (key q) \<noteq> Some True) L"
    and "filter (\<lambda>p. tied (key p) k) L = filter (\<lambda>p. tied (key p) k) xs"
proof -
  have cmp: "list_all (\<lambda>x. list_all (\<lambda>y. py_lt (key x) (key y) \<noteq> None) xs) xs
      \<Longrightarrow> comparable key (set xs)"
    unfolding comparable_def list_all_iff by blast
  from assms have "(length xs < 2 \<and> L = xs)
      \<or> (list_all (\<lambda>x. list_all (\<lambda>y. py_lt (key x) (key y) \<noteq> None) xs) xs
          \<and> L = rev (stable_sort key (rev xs)))"
    unfolding py_sorted_def by (simp split: if_splits)
  with cmp consider (short) "length xs < 2" "L = xs"
    | (long) "comparable key (set xs)" "L = rev (stable_sort key (rev xs))"
    by blast
  then have "mset L = mset xs
    \<and> sorted_wrt (\<lambda>p q. py_lt (key p) (key q) \<noteq> Some True) L
    \<and> filter (\<lambda>p. tied (key p) k) L = filter (\<lambda>p. tied (key p) k) xs"
  proof cases
    case short
    then have "xs = [] \<or> (\<exists>x. xs = [x])" by (cases xs) (auto simp: length_Suc_conv)
    with short show ?thesis by auto
  next
    case long
    then have "comparable key (set (rev xs))" by simp
    from sorted_stable_sort [OF this]
    have "sorted_wrt (\<lambda>p q. py_lt (key p) (key q) \<noteq> Some True) L"
      by (simp add: long sorted_wrt_rev)
    moreover have "filter (\<lambda>p. tied (key p) k) L = filter (\<lambda>p. tied (key p) k) xs"
      by (simp add: long rev_filter [symmetric] filter_tied_stable_sort)
    moreover have "mset L = mset xs" by (simp add: long mset_stable_sort)
    ultimately show ?thesis by simp
  qed
  then show "mset L = mset xs"
    and "sorted_wrt (\<lambda>p q. py_lt (key p) (key q) \<noteq> Some True) L"
    and "filter (\<lambda>p. tied (key p) k) L = filter (\<lambda>p. tied (key p) k) xs"
    by simp_all
qed

subsection \<open>Order of the home index\<close>

lemma process_result_raw:
  assumes "process_result E G C force st res = (None, st')"
  shows "raw_post_list st' = raw_post_list st @ (if written force res then [entry_of res] else [])"
proof -
  from assms obtain slug where s: "r_slug res = YStr slug"
    by (cases "r_slug res") (auto simp: process_result_def)
  obtain html printed where h: "run_after_render (plugins G) res (r_html res) = (html, printed)"
    by (cases "run_after_render (plugins G) res (r_html res)") auto
  show ?thesis
  proof (cases "written force res")
    case False
    with assms s h show ?thesis
      by (auto simp: process_result_def written_def)
  next
    case True
    with assms s h show ?thesis
      by (auto simp: process_result_def written_def write_file_def entry_of_def Let_def
          split: option.splits sum.splits)
  qed
qed

lemma process_results_raw:
  "process_results E G C force st results = (None, st') \<Longrightarrow>
   raw_post_list st' = raw_post_list st @ map entry_of (filter (written force) results)"
proof (induction results arbitrary: st)
  case Nil
  then show ?case by simp
next
  case (Cons res rs)
  obtain r st1 where p: "process_result E G C force st res = (r, st1)"
    by (cases "process_result E G C force st res") auto
  with Cons.prems have r: "r = None" and rest: "process_results E G C force st1 rs = (None, st')"
    by (auto simp: and_then_def split: option.splits)
  from process_result_raw [OF p [unfolded r]] Cons.IH [OF rest] show ?case by simp
qed

lemma render_worker_src:
  "render_post_worker E C theme site src = Inr res \<Longrightarrow> r_src res = src"
  by (auto simp: render_post_worker_def Let_def
      split: sum.splits option.splits yval.splits prod.splits)

lemma render_all_src:
  "render_all E C theme site ts = Inr results \<Longrightarrow> map r_src results = ts"
proof (induction ts arbitrary: results)
  case Nil
  then show ?case by simp
next
  case (Cons t ts)
  from Cons.prems obtain res rs where a: "render_post_worker E C theme site t = Inr res"
    and b: "render_all E C theme site ts = Inr rs" and c: "results = res # rs"
    by (auto split: sum.splits)
  from render_worker_src [OF a] Cons.IH [OF b] c show ?case by simp
qed

text \<open>
  C3, as the code has it. The results stand in the order in which the pool
  delivered the tasks. When the loop over the results ends without an
  exception and the sort succeeds, \<^verbatim>\<open>raw_post_list\<close> holds the written results in
  that order, and the list of the home index
  is a permutation of it in which no entry has a smaller key than a later one
  and entries with tied keys keep the order of \<^verbatim>\<open>raw_post_list\<close>. The key of an
  entry without a date is the datetime 1970-01-01 00:00:00.
\<close>

theorem home_post_list_order:
  assumes "render_all E C theme site order = Inr results"
      and "process_results E G C force st results = (None, st')"
      and "raw_post_list st = []"
      and "home_post_list (raw_post_list st') = Inr L"
  shows "map r_src results = order
       \<and> raw_post_list st' = map entry_of (filter (written force) results)
       \<and> mset L = mset (raw_post_list st')
       \<and> sorted_wrt (\<lambda>p q. py_lt (date_key p) (date_key q) \<noteq> Some True) L
       \<and> (\<forall>k. filter (\<lambda>p. tied (date_key p) k) L
               = filter (\<lambda>p. tied (date_key p) k) (raw_post_list st'))
       \<and> (\<forall>p. map_of (fst p) ''date'' = None \<longrightarrow> date_key p = YDateTime False 0)"
proof -
  from process_results_raw [OF assms(2)] assms(3)
  have "raw_post_list st' = map entry_of (filter (written force) results)" by simp
  moreover from assms(4) have s: "py_sorted date_key True (raw_post_list st') = Inr L"
    by (simp add: home_post_list_def)
  moreover have "\<forall>p. map_of (fst p) ''date'' = None \<longrightarrow> date_key p = YDateTime False 0"
    by (simp add: date_key_def dict_get_def)
  moreover note render_all_src [OF assms(1)]
  ultimately show ?thesis
    using py_sorted_reverse [OF s] by blast
qed

text \<open>
  A post dated 1969-12-31 and a post without a date, delivered in that order:
  the home index lists the post without a date first.
\<close>

theorem home_post_list_order_witness:
  "render_all demo_env blog_old ''themes/default'' (site_meta_of demo_env demo_gen)
      [''content/a.md'', ''content/b.md''] = Inr old_results
   \<and> fst (process_results demo_env demo_gen blog_old False (start_state empty_disk) old_results) = None
   \<and> raw_post_list (snd (process_results demo_env demo_gen blog_old False
          (start_state empty_disk) old_results))
       = map entry_of (filter (written False) old_results)
   \<and> home_post_list (raw_post_list (snd (process_results demo_env demo_gen blog_old False
          (start_state empty_disk) old_results)))
       = Inr [([(''content_raw'', YStr ''B'')], ''/b/index.html''),
              ([(''date'', YDateTime False (- 86400000000)), (''content_raw'', YStr ''A'')],
               ''/a/index.html'')]
   \<and> sorted_wrt (\<lambda>p q. py_lt (date_key p) (date_key q) \<noteq> Some True)
        [([(''content_raw'', YStr ''B'')], ''/b/index.html''),
         ([(''date'', YDateTime False (- 86400000000)), (''content_raw'', YStr ''A'')],
          ''/a/index.html'')]"
proof -
  let ?pr = "process_results demo_env demo_gen blog_old False (start_state empty_disk) old_results"
  have r: "render_all demo_env blog_old ''themes/default'' (site_meta_of demo_env demo_gen)
      [''content/a.md'', ''content/b.md''] = Inr old_results"
    by code_simp
  have a: "fst ?pr = None" by code_simp
  then have h1: "?pr = (None, snd ?pr)" by (simp add: prod_eq_iff)
  have h2: "raw_post_list (start_state empty_disk) = []" by (simp add: start_state_def)
  have h3: "home_post_list (raw_post_list (snd ?pr))
       = Inr [([(''content_raw'', YStr ''B'')], ''/b/index.html''),
              ([(''date'', YDateTime False (- 86400000000)), (''content_raw'', YStr ''A'')],
               ''/a/index.html'')]"
    by code_simp
  from home_post_list_order [OF r h1 h2 h3] r a h3 show ?thesis by blast
qed

text \<open>
  C3 as stated fails twice. A post without a date is not the oldest: it is
  listed before a post dated 1969. And two posts with the same key, discovered
  as \<^verbatim>\<open>a.md\<close>, \<^verbatim>\<open>b.md\<close>, are listed as \<^verbatim>\<open>b\<close>, \<^verbatim>\<open>a\<close> when the pool delivers \<^verbatim>\<open>b.md\<close>
  first.
\<close>

theorem home_index_order_counterexample:
  "public (snd (run_build demo_env demo_gen blog_old False empty_disk)) ''public/index.html''
       = Some ''/b/index.html/a/index.html''
   \<and> fst (discover_posts_and_pages blog_plain) = [''content/a.md'', ''content/b.md'']
   \<and> as_completed demo_env_rev [''content/a.md'', ''content/b.md'']
       = [''content/b.md'', ''content/a.md'']
   \<and> public (snd (run_build demo_env_rev demo_gen blog_plain False empty_disk)) ''public/index.html''
       = Some ''/b/index.html/a/index.html''"
  by code_simp

subsection \<open>A render that raises\<close>

lemma render_all_fails:
  "t \<in> set ts \<Longrightarrow> render_post_worker E C theme site t = Inl e \<Longrightarrow>
   \<exists>e' u. u \<in> set ts \<and> render_post_worker E C theme site u = Inl e'
          \<and> render_all E C theme site ts = Inl e'"
proof (induction ts)
  case Nil
  then show ?case by simp
next
  case (Cons a ts)
  show ?case
  proof (cases "render_post_worker E C theme site a")
    case (Inl e0)
    then show ?thesis by auto
  next
    case (Inr res)
    with Cons.prems have "t \<in> set ts" by auto
    from Cons.IH [OF this Cons.prems(2)] obtain e' u where
      "u \<in> set ts" "render_post_worker E C theme site u = Inl e'"
      "render_all E C theme site ts = Inl e'" by blast
    with Inr show ?thesis by auto
  qed
qed

text \<open>
  C2, as the code has it. Nothing catches an exception of a worker. When the
  tasks were collected and the render of one of them raises, the build ends
  with the exception of a task whose render raised (of that one task, when it
  is the only one), and the state is the one before the build apart from the
  front-matter messages that the first loop and the workers printed: the
  render error is not printed, no output file is written, no cache entry is
  recorded, the cache file is not rewritten, for the failing document and for
  every other document alike.
\<close>

theorem render_failure_aborts_build:
  assumes "collect_tasks E C force (cache st)
             (fst (discover_posts_and_pages C) @ snd (discover_posts_and_pages C)) = (Inr tasks, printed)"
      and "t \<in> set tasks"
      and "set (as_completed E tasks) = set tasks"
      and "render_post_worker E C (theme_dir G) (site_meta_of E G) t = Inl e"
  shows "\<exists>e' u. u \<in> set tasks
           \<and> render_post_worker E C (theme_dir G) (site_meta_of E G) u = Inl e'
           \<and> build E G C force st
               = (Some e', st\<lparr>console := console st @ printed @
                     concat (map (worker_printed E C) (as_completed E tasks))\<rparr>)"
proof -
  from assms(2,3) have "t \<in> set (as_completed E tasks)" by simp
  from render_all_fails [OF this assms(4)] obtain e' u where
    u: "u \<in> set (as_completed E tasks)"
    and f: "render_post_worker E C (theme_dir G) (site_meta_of E G) u = Inl e'"
    and r: "render_all E C (theme_dir G) (site_meta_of E G) (as_completed E tasks) = Inl e'"
    by blast
  from assms(1) r have "build E G C force st
      = (Some e', st\<lparr>console := console st @ printed @
            concat (map (worker_printed E C) (as_completed E tasks))\<rparr>)"
    by (simp add: build_def Let_def)
  with u f assms(3) show ?thesis by auto
qed

text \<open>
  Two posts, the second with a number as title, which the post template
  rejects: the build ends with that error in the state it started from.
\<close>

theorem render_failure_aborts_build_witness:
  "collect_tasks demo_env blog_bad_title False (cache (start_state empty_disk))
      (fst (discover_posts_and_pages blog_bad_title) @ snd (discover_posts_and_pages blog_bad_title))
     = (Inr [''content/a.md'', ''content/b.md''], [])
   \<and> render_post_worker demo_env blog_bad_title (theme_dir demo_gen)
        (site_meta_of demo_env demo_gen) ''content/b.md'' = Inl (RenderError ''title'')
   \<and> run_build demo_env demo_gen blog_bad_title False empty_disk
       = (Some (RenderError ''title''), start_state empty_disk)"
proof -
  let ?st = "start_state empty_disk"
  let ?render = "render_post_worker demo_env blog_bad_title (theme_dir demo_gen)
        (site_meta_of demo_env demo_gen)"
  have h1: "collect_tasks demo_env blog_bad_title False (cache ?st)
      (fst (discover_posts_and_pages blog_bad_title) @ snd (discover_posts_and_pages blog_bad_title))
     = (Inr [''content/a.md'', ''content/b.md''], [])"
    by code_simp
  have h2: "''content/b.md'' \<in> set [''content/a.md'', ''content/b.md'']" by simp
  have h3: "set (as_completed demo_env [''content/a.md'', ''content/b.md''])
      = set [''content/a.md'', ''content/b.md'']"
    by (simp add: demo_env_def)
  have h4: "?render ''content/b.md'' = Inl (RenderError ''title'')" by code_simp
  have ok: "\<not> isl (?render ''content/a.md'')" by code_simp
  from render_failure_aborts_build [OF h1 h2 h3 h4] obtain e' u where
    u: "u \<in> set [''content/a.md'', ''content/b.md'']"
    and f: "?render u = Inl e'"
    and b: "build demo_env demo_gen blog_bad_title False ?st
              = (Some e', ?st\<lparr>console := console ?st @ [] @
                    concat (map (worker_printed demo_env blog_bad_title)
                      (as_completed demo_env [''content/a.md'', ''content/b.md'']))\<rparr>)"
    by blast
  have q: "concat (map (worker_printed demo_env blog_bad_title)
      (as_completed demo_env [''content/a.md'', ''content/b.md''])) = []"
    by code_simp
  from u f ok have "u = ''content/b.md''" by auto
  with f h4 have "e' = RenderError ''title''" by simp
  with b q have "run_build demo_env demo_gen blog_bad_title False empty_disk
       = (Some (RenderError ''title''), ?st)"
    by (simp add: run_build_def)
  with h1 h4 show ?thesis by blast
qed

text \<open>
  C2 as stated fails: exactly one of two renders raises, the build ends with
  its exception, the other document has no output file, and nothing was
  printed.
\<close>

theorem render_failure_counterexample:
  "fst (run_build demo_env demo_gen blog_bad_title False empty_disk) = Some (RenderError ''title'')
   \<and> isl (render_post_worker demo_env blog_bad_title ''themes/default''
             (site_meta_of demo_env demo_gen) ''content/b.md'')
   \<and> \<not> isl (render_post_worker demo_env blog_bad_title ''themes/default''
             (site_meta_of demo_env demo_gen) ''content/a.md'')
   \<and> public (snd (run_build demo_env demo_gen blog_bad_title False empty_disk))
        ''public/a/index.html'' = None
   \<and> console (snd (run_build demo_env demo_gen blog_bad_title False empty_disk)) = []"
  by code_simp

subsection \<open>Building twice\<close>

text \<open>
  C1, on one post and an empty output directory. The first build writes a home
  index that lists the post. The second build, with the content unchanged,
  renders nothing and succeeds, and writes a home index that lists no post:
  the page is made from the results of this build only.
\<close>

theorem second_build_empties_home_index:
  "fst (run_build demo_env demo_gen blog_one False empty_disk) = None
   \<and> public (snd (run_build demo_env demo_gen blog_one False empty_disk)) ''public/index.html''
       = Some ''/a/index.html''
   \<and> fst (collect_tasks demo_env blog_one False
        (load_cache (cache_file (snd (run_build demo_env demo_gen blog_one False empty_disk))))
        [''content/a.md'']) = Inr []
   \<and> fst (run_build demo_env demo_gen blog_one False
             (disk_after (run_build demo_env demo_gen blog_one False empty_disk))) = None
   \<and> public (snd (run_build demo_env demo_gen blog_one False
             (disk_after (run_build demo_env demo_gen blog_one False empty_disk))))
        ''public/index.html'' = Some []"
  by code_simp

text \<open>The home index after the second build is not the one after the first.\<close>

theorem second_build_empties_home_index_witness:
  "public (snd (run_build demo_env demo_gen blog_one False
             (disk_after (run_build demo_env demo_gen blog_one False empty_disk))))
        ''public/index.html''
     \<noteq> public (snd (run_build demo_env demo_gen blog_one False empty_disk)) ''public/index.html''"
  using second_build_empties_home_index by simp

subsection \<open>Members of a tag page\<close>

text \<open>
  C7, on a post whose front matter is \<^verbatim>\<open>tags: python\<close> and a post whose front
  matter is \<^verbatim>\<open>tags: [py]\<close>. The set of tags takes the scalar as the one name
  \<^verbatim>\<open>python\<close>, but the page of the tag \<^verbatim>\<open>py\<close> lists both posts: the membership
  test looks for \<^verbatim>\<open>py\<close> inside the string \<^verbatim>\<open>python\<close>.
\<close>

theorem scalar_tag_matches_substring:
  "add_names [] (YStr ''python'') = Inr [YStr ''python'']
   \<and> fst (run_build demo_env demo_gen blog_tags False empty_disk) = None
   \<and> public (snd (run_build demo_env demo_gen blog_tags False empty_disk))
        ''public/tag/py/index.html'' = Some ''/a/index.html/b/index.html''
   \<and> public (snd (run_build demo_env demo_gen blog_tags False empty_disk))
        ''public/tag/python/index.html'' = Some ''/a/index.html''"
  by code_simp

text \<open>The page of \<^verbatim>\<open>py\<close> is not the list of the one post that declares it.\<close>

theorem scalar_tag_matches_substring_witness:
  "public (snd (run_build demo_env demo_gen blog_tags False empty_disk))
        ''public/tag/py/index.html'' \<noteq> Some ''/b/index.html''"
  using scalar_tag_matches_substring by simp

subsection \<open>Cache entries and drafts\<close>

text \<open>The phases after the loop over the results keep the state.\<close>

lemma keeps_refl: "keeps st st"
  by (simp add: keeps_def)

lemma keeps_trans: "keeps a b \<Longrightarrow> keeps b c \<Longrightarrow> keeps a c"
  unfolding keeps_def by auto

lemma keeps_write_file: "keeps st (write_file p t st)"
  by (auto simp: keeps_def write_file_def)

lemma keeps_fold_write:
  "keeps st (fold (\<lambda>item. write_file (f item) (g item)) items st)"
proof (induction items arbitrary: st)
  case Nil
  show ?case by (simp add: keeps_refl)
next
  case (Cons a items)
  from keeps_trans [OF keeps_write_file Cons.IH] show ?case by simp
qed

lemma keeps_copy_static: "keeps st (copy_static E G st)"
  unfolding copy_static_def by (rule keeps_fold_write)

lemma keeps_render_home: "keeps st (snd (render_home E G site st))"
  unfolding render_home_def
  by (auto simp: keeps_refl keeps_write_file split: option.splits sum.splits)

lemma keeps_render_name_page: "keeps st (snd (render_name_page tx tpl site name st))"
  unfolding render_name_page_def
  by (auto simp: keeps_refl keeps_write_file split: sum.splits yval.splits)

lemma and_then_cases:
  assumes "and_then r f = (r', st')"
  shows "(\<exists>e. r = (Some e, st') \<and> r' = Some e) \<or> (\<exists>s. r = (None, s) \<and> f s = (r', st'))"
  using assms by (cases r) (auto simp: and_then_def split: option.splits)

lemma keeps_render_name_pages: "keeps st (snd (render_name_pages tx tpl site names st))"
proof (induction names arbitrary: st)
  case Nil
  show ?case by (simp add: keeps_refl)
next
  case (Cons name names)
  obtain r' st' where e: "render_name_pages tx tpl site (name # names) st = (r', st')"
    by (cases "render_name_pages tx tpl site (name # names) st") auto
  then have "and_then (render_name_page tx tpl site name st) (render_name_pages tx tpl site names)
      = (r', st')" by simp
  from and_then_cases [OF this] have "keeps st st'"
  proof
    assume "\<exists>e. render_name_page tx tpl site name st = (Some e, st') \<and> r' = Some e"
    then have "snd (render_name_page tx tpl site name st) = st'" by auto
    with keeps_render_name_page [of st tx tpl site name] show ?thesis by simp
  next
    assume "\<exists>s. render_name_page tx tpl site name st = (None, s)
        \<and> render_name_pages tx tpl site names s = (r', st')"
    then obtain s where s: "render_name_page tx tpl site name st = (None, s)"
      and t: "render_name_pages tx tpl site names s = (r', st')" by blast
    from s keeps_render_name_page [of st tx tpl site name] have "keeps st s" by simp
    moreover from t Cons.IH [of s] have "keeps s st'" by simp
    ultimately show ?thesis by (rule keeps_trans)
  qed
  with e show ?case by simp
qed

lemma keeps_render_taxonomy: "keeps st (snd (render_taxonomy E G tx site names st))"
proof (cases "theme_templates E (theme_dir G) (tx_template tx)")
  case None
  then show ?thesis by (simp add: render_taxonomy_def keeps_refl)
next
  case (Some tpl)
  obtain r' st' where e: "render_taxonomy E G tx site names st = (r', st')"
    by (cases "render_taxonomy E G tx site names st") auto
  let ?idx = "\<lambda>st'. case py_sorted (\<lambda>v. v) False names of
                     Inl e \<Rightarrow> (Some e, st')
                   | Inr sorted_names \<Rightarrow>
                      (case tpl [(tx_kw tx, YNull),
                                 (''posts'', YList []),
                                 (''site'', site),
                                 (''page'', YMap [(''title'', YStr (tx_index_title tx))]),
                                 (tx_all_kw tx, YList sorted_names)] of
                         Inl e \<Rightarrow> (Some e, st')
                       | Inr html \<Rightarrow>
                          (None, write_file (''public/'' @ tx_dir tx @ ''/index.html'') html st'))"
  from e Some have "and_then (render_name_pages tx tpl site names st) ?idx = (r', st')"
    by (simp add: render_taxonomy_def)
  from and_then_cases [OF this] have "keeps st st'"
  proof
    assume "\<exists>e. render_name_pages tx tpl site names st = (Some e, st') \<and> r' = Some e"
    then have "snd (render_name_pages tx tpl site names st) = st'" by auto
    with keeps_render_name_pages [of st tx tpl site names] show ?thesis by simp
  next
    assume "\<exists>s. render_name_pages tx tpl site names st = (None, s) \<and> ?idx s = (r', st')"
    then obtain s where s: "render_name_pages tx tpl site names st = (None, s)"
      and t: "?idx s = (r', st')" by blast
    from s keeps_render_name_pages [of st tx tpl site names] have "keeps st s" by simp
    moreover from t have "keeps s st'"
      by (auto simp: keeps_refl keeps_write_file split: sum.splits)
    ultimately show ?thesis by (rule keeps_trans)
  qed
  with e show ?thesis by simp
qed

lemma keeps_run_build_finished: "keeps st (run_build_finished G ps st)"
proof (induction ps arbitrary: st)
  case Nil
  show ?case by (simp add: keeps_refl)
next
  case (Cons p ps)
  show ?case
  proof (cases "on_build_finished p (config G) (cache st)")
    case (Inl msg)
    have "keeps st (st\<lparr>console := console st @ [PluginError (class_name p) ''on_build_finished'' msg]\<rparr>)"
      by (simp add: keeps_def)
    from keeps_trans [OF this Cons.IH] Inl show ?thesis by simp
  next
    case (Inr files)
    from keeps_trans [OF keeps_fold_write Cons.IH] Inr show ?thesis by simp
  qed
qed

lemma dict_get_update_other:
  "k \<noteq> k' \<Longrightarrow> dict_get (AList.update k' v m) k d = dict_get m k d"
  by (simp add: dict_get_def update_conv')

lemma render_genuine:
  assumes "render_post_worker E C theme site src = Inr res"
  shows "genuine E C res"
proof -
  from assms obtain raw where t: "read_file C src = Some raw"
    by (auto simp: render_post_worker_def split: option.splits)
  obtain meta body printed where p: "parse_front_matter E raw = (meta, body, printed)"
    by (cases "parse_front_matter E raw") auto
  from assms t p obtain m where m: "meta = YMap m"
    and r: "r_src res = src" "r_meta res = AList.update ''content_raw'' (YStr body) m"
    by (auto simp: render_post_worker_def Let_def split: sum.splits option.splits yval.splits)
  have "dict_get (r_meta res) ''draft'' (YBool False) = dict_get m ''draft'' (YBool False)"
    unfolding r by (rule dict_get_update_other) simp
  moreover have "is_draft E raw = truthy (dict_get m ''draft'' (YBool False))"
    by (simp add: is_draft_def p m dict_get_def)
  ultimately show ?thesis by (simp add: genuine_def r t)
qed

lemma render_all_genuine:
  "render_all E C theme site ts = Inr results \<Longrightarrow> list_all (genuine E C) results"
proof (induction ts arbitrary: results)
  case Nil
  then show ?case by simp
next
  case (Cons t ts)
  from Cons.prems obtain res rs where a: "render_post_worker E C theme site t = Inr res"
    and b: "render_all E C theme site ts = Inr rs" and c: "results = res # rs"
    by (auto split: sum.splits)
  from render_genuine [OF a] Cons.IH [OF b] c show ?case by simp
qed

text \<open>One result, without the force flag.\<close>

lemma process_result_step:
  assumes "process_result E G C False st res = (r, st')" and "genuine E C res"
  shows "cache_file st' = cache_file st \<and> dom (public st) \<subseteq> dom (public st')
       \<and> (cache st' = cache st
          \<or> (\<exists>raw ce. read_file C (r_src res) = Some raw \<and> \<not> is_draft E raw
                \<and> ce_hash ce = compute_hash E raw \<and> ce_output ce \<in> dom (public st')
                \<and> cache st' = (cache st)(r_src res \<mapsto> ce)))"
proof (cases "r_slug res")
  case (YStr slug)
  obtain html printed where h: "run_after_render (plugins G) res (r_html res) = (html, printed)"
    by (cases "run_after_render (plugins G) res (r_html res)") auto
  from assms(2) obtain raw where raw: "read_file C (r_src res) = Some raw"
    and d: "truthy (dict_get (r_meta res) ''draft'' (YBool False)) = is_draft E raw"
    by (auto simp: genuine_def split: option.splits)
  show ?thesis
  proof (cases "is_draft E raw")
    case True
    with assms(1) YStr h d show ?thesis
      by (auto simp: process_result_def)
  next
    case False
    let ?ce = "\<lparr>ce_mtime = st_mtime E (r_src res), ce_hash = compute_hash E raw,
                ce_output = path_str (post_out_path slug)\<rparr>"
    from assms(1) YStr h d False raw
    have "cache_file st' = cache_file st"
      and "public st' = (public st)(path_str (post_out_path slug) \<mapsto> html)"
      and "cache st' = (cache st)(r_src res \<mapsto> ?ce)"
      by (auto simp: process_result_def write_file_def Let_def split: sum.splits)
    with raw False
    have "read_file C (r_src res) = Some raw \<and> \<not> is_draft E raw
        \<and> ce_hash ?ce = compute_hash E raw \<and> ce_output ?ce \<in> dom (public st')
        \<and> cache st' = (cache st)(r_src res \<mapsto> ?ce)"
      by simp
    then have "\<exists>raw ce. read_file C (r_src res) = Some raw \<and> \<not> is_draft E raw
        \<and> ce_hash ce = compute_hash E raw \<and> ce_output ce \<in> dom (public st')
        \<and> cache st' = (cache st)(r_src res \<mapsto> ce)"
      by blast
    moreover from \<open>public st' = (public st)(path_str (post_out_path slug) \<mapsto> html)\<close>
    have "dom (public st) \<subseteq> dom (public st')" by auto
    ultimately show ?thesis using \<open>cache_file st' = cache_file st\<close> by blast
  qed
qed (use assms(1) in \<open>auto simp: process_result_def\<close>)

lemma entry_sound_mono:
  assumes "entry_sound E C st p" and "cache st' p = cache st p"
    and "dom (public st) \<subseteq> dom (public st')"
  shows "entry_sound E C st' p"
proof -
  from assms(1) obtain raw ce where "read_file C p = Some raw" "cache st p = Some ce"
    "\<not> is_draft E raw" "ce_hash ce = compute_hash E raw" "ce_output ce \<in> dom (public st)"
    by (auto simp: entry_sound_def split: option.splits)
  with assms(2,3) show ?thesis by (auto simp: entry_sound_def)
qed

lemma fresh_entries_sound_mono:
  assumes "fresh_entries_sound E C c0 st" and "cache st' = cache st"
    and "dom (public st) \<subseteq> dom (public st')"
  shows "fresh_entries_sound E C c0 st'"
  unfolding fresh_entries_sound_def
proof
  fix p
  from assms(1) have "cache st p = c0 p \<or> entry_sound E C st p"
    by (simp add: fresh_entries_sound_def)
  with entry_sound_mono [of E C st p st'] assms(2,3)
  show "cache st' p = c0 p \<or> entry_sound E C st' p" by auto
qed

lemma process_result_sound:
  assumes "process_result E G C False st res = (r, st')" and "genuine E C res"
    and "fresh_entries_sound E C c0 st"
  shows "fresh_entries_sound E C c0 st' \<and> cache_file st' = cache_file st"
proof -
  from process_result_step [OF assms(1,2)]
  have cf: "cache_file st' = cache_file st" and pub: "dom (public st) \<subseteq> dom (public st')"
    and alt: "cache st' = cache st
          \<or> (\<exists>raw ce. read_file C (r_src res) = Some raw \<and> \<not> is_draft E raw
                \<and> ce_hash ce = compute_hash E raw \<and> ce_output ce \<in> dom (public st')
                \<and> cache st' = (cache st)(r_src res \<mapsto> ce))"
    by blast+
  have keep: "entry_sound E C st' p" if "entry_sound E C st p" "cache st' p = cache st p" for p
    using that pub by (rule entry_sound_mono)
  have "cache st' p = c0 p \<or> entry_sound E C st' p" for p
  proof (cases "cache st' p = cache st p")
    case True
    with assms(3) keep [of p] show ?thesis by (auto simp: fresh_entries_sound_def)
  next
    case False
    with alt obtain raw ce where "read_file C (r_src res) = Some raw" "\<not> is_draft E raw"
      "ce_hash ce = compute_hash E raw" "ce_output ce \<in> dom (public st')"
      "cache st' = (cache st)(r_src res \<mapsto> ce)" by auto
    moreover with False have "p = r_src res" by (auto split: if_splits)
    ultimately show ?thesis by (simp add: entry_sound_def)
  qed
  with cf show ?thesis by (simp add: fresh_entries_sound_def)
qed

lemma process_results_sound:
  "process_results E G C False st results = (r, st') \<Longrightarrow> list_all (genuine E C) results \<Longrightarrow>
   fresh_entries_sound E C c0 st \<Longrightarrow>
   fresh_entries_sound E C c0 st' \<and> cache_file st' = cache_file st"
proof (induction results arbitrary: st)
  case Nil
  then show ?case by simp
next
  case (Cons res rs)
  from Cons.prems(1) have "and_then (process_result E G C False st res)
      (\<lambda>s. process_results E G C False s rs) = (r, st')" by simp
  from and_then_cases [OF this] show ?case
  proof
    assume "\<exists>e. process_result E G C False st res = (Some e, st') \<and> r = Some e"
    then obtain e where "process_result E G C False st res = (Some e, st')" by blast
    from process_result_sound [OF this _ Cons.prems(3)] Cons.prems(2) show ?thesis by simp
  next
    assume "\<exists>s. process_result E G C False st res = (None, s)
        \<and> process_results E G C False s rs = (r, st')"
    then obtain s where a: "process_result E G C False st res = (None, s)"
      and b: "process_results E G C False s rs = (r, st')" by blast
    from process_result_sound [OF a _ Cons.prems(3)] Cons.prems(2)
    have s: "fresh_entries_sound E C c0 s" "cache_file s = cache_file st" by simp_all
    from Cons.IH [OF b _ s(1)] Cons.prems(2) s(2) show ?thesis by simp
  qed
qed

lemma keeps_sound:
  "keeps st st' \<Longrightarrow> fresh_entries_sound E C c0 st \<Longrightarrow> fresh_entries_sound E C c0 st'"
proof -
  assume k: "keeps st st'" and f: "fresh_entries_sound E C c0 st"
  from k have "cache st' = cache st" and "dom (public st) \<subseteq> dom (public st')"
    unfolding keeps_def by blast+
  with f show ?thesis by (rule fresh_entries_sound_mono)
qed

lemma finish_build_sound:
  assumes "finish_build E G C False site results st = (r, st')"
    and "list_all (genuine E C) results"
    and "cache st = c0"
  shows "disk_sound E C c0 (cache_file st) st'"
proof -
  let ?st = "st\<lparr>raw_post_list := [], all_tags := [], all_categories := []\<rparr>"
  have init: "fresh_entries_sound E C c0 ?st"
    using assms(3) by (simp add: fresh_entries_sound_def)
  note fb = assms(1) [unfolded finish_build_def]
  from and_then_cases [OF fb] show ?thesis
  proof
    assume "\<exists>e. process_results E G C False ?st results = (Some e, st') \<and> r = Some e"
    then obtain e where "process_results E G C False ?st results = (Some e, st')" by blast
    from process_results_sound [OF this assms(2) init] show ?thesis
      by (simp add: disk_sound_def)
  next
    assume "\<exists>s. process_results E G C False ?st results = (None, s) \<and>
      and_then (render_home E G site (copy_static E G s))
       (\<lambda>st2. and_then (render_taxonomy E G tag_pages site (all_tags st2) st2)
           (\<lambda>st3. and_then (render_taxonomy E G category_pages site (all_categories st3) st3)
             (\<lambda>st4. (None, run_build_finished G (plugins G) (save_cache st4))))) = (r, st')"
    then obtain s1 where p: "process_results E G C False ?st results = (None, s1)"
      and rest1: "and_then (render_home E G site (copy_static E G s1))
       (\<lambda>st2. and_then (render_taxonomy E G tag_pages site (all_tags st2) st2)
           (\<lambda>st3. and_then (render_taxonomy E G category_pages site (all_categories st3) st3)
             (\<lambda>st4. (None, run_build_finished G (plugins G) (save_cache st4))))) = (r, st')"
      by blast
    from process_results_sound [OF p assms(2) init]
    have s1: "fresh_entries_sound E C c0 s1" "cache_file s1 = cache_file st" by simp_all
    have k2: "keeps s1 (snd (render_home E G site (copy_static E G s1)))"
      by (rule keeps_trans [OF keeps_copy_static keeps_render_home])
    from and_then_cases [OF rest1] show ?thesis
    proof
      assume "\<exists>e. render_home E G site (copy_static E G s1) = (Some e, st') \<and> r = Some e"
      with k2 have "keeps s1 st'" by auto
      with s1 show ?thesis by (simp add: disk_sound_def keeps_def)
    next
      assume "\<exists>s. render_home E G site (copy_static E G s1) = (None, s) \<and>
         and_then (render_taxonomy E G tag_pages site (all_tags s) s)
           (\<lambda>st3. and_then (render_taxonomy E G category_pages site (all_categories st3) st3)
             (\<lambda>st4. (None, run_build_finished G (plugins G) (save_cache st4)))) = (r, st')"
      then obtain s2 where h: "render_home E G site (copy_static E G s1) = (None, s2)"
        and rest2: "and_then (render_taxonomy E G tag_pages site (all_tags s2) s2)
           (\<lambda>st3. and_then (render_taxonomy E G category_pages site (all_categories st3) st3)
             (\<lambda>st4. (None, run_build_finished G (plugins G) (save_cache st4)))) = (r, st')"
        by blast
      from k2 h have k12: "keeps s1 s2" by simp
      have k3: "keeps s2 (snd (render_taxonomy E G tag_pages site (all_tags s2) s2))"
        by (rule keeps_render_taxonomy)
      from and_then_cases [OF rest2] show ?thesis
      proof
        assume "\<exists>e. render_taxonomy E G tag_pages site (all_tags s2) s2 = (Some e, st') \<and> r = Some e"
        with k3 have "keeps s2 st'" by auto
        with k12 have "keeps s1 st'" by (rule keeps_trans)
        with s1 show ?thesis by (simp add: disk_sound_def keeps_def)
      next
        assume "\<exists>s. render_taxonomy E G tag_pages site (all_tags s2) s2 = (None, s) \<and>
           and_then (render_taxonomy E G category_pages site (all_categories s) s)
             (\<lambda>st4. (None, run_build_finished G (plugins G) (save_cache st4))) = (r, st')"
        then obtain s3 where t: "render_taxonomy E G tag_pages site (all_tags s2) s2 = (None, s3)"
          and rest3: "and_then (render_taxonomy E G category_pages site (all_categories s3) s3)
             (\<lambda>st4. (None, run_build_finished G (plugins G) (save_cache st4))) = (r, st')"
          by blast
        from k3 t have "keeps s2 s3" by simp
        with k12 have k13: "keeps s1 s3" by (rule keeps_trans)
        have k4: "keeps s3 (snd (render_taxonomy E G category_pages site (all_categories s3) s3))"
          by (rule keeps_render_taxonomy)
        from and_then_cases [OF rest3] show ?thesis
        proof
          assume "\<exists>e. render_taxonomy E G category_pages site (all_categories s3) s3 = (Some e, st')
              \<and> r = Some e"
          with k4 have "keeps s3 st'" by auto
          with k13 have "keeps s1 st'" by (rule keeps_trans)
          with s1 show ?thesis by (simp add: disk_sound_def keeps_def)
        next
          assume "\<exists>s. render_taxonomy E G category_pages site (all_categories s3) s3 = (None, s) \<and>
             (None, run_build_finished G (plugins G) (save_cache s)) = (r, st')"
          then obtain s4 where c: "render_taxonomy E G category_pages site (all_categories s3) s3 = (None, s4)"
            and fin: "st' = run_build_finished G (plugins G) (save_cache s4)"
            by auto
          from k4 c have "keeps s3 s4" by simp
          with k13 have k14: "keeps s1 s4" by (rule keeps_trans)
          have k5: "keeps (save_cache s4) st'"
            unfolding fin by (rule keeps_run_build_finished)
          have "fresh_entries_sound E C c0 s4" using k14 s1(1) by (rule keeps_sound)
          then have "fresh_entries_sound E C c0 (save_cache s4)"
            by (rule fresh_entries_sound_mono) (simp_all add: save_cache_def)
          with k5 have "fresh_entries_sound E C c0 st'" by (rule keeps_sound)
          moreover from k5 have "cache_file st' = Some (cache st')"
            by (simp add: keeps_def save_cache_def)
          ultimately show ?thesis by (simp add: disk_sound_def)
        qed
      qed
    qed
  qed
qed

lemma build_sound:
  assumes "build E G C False st = (r, st')"
  shows "disk_sound E C (cache st) (cache_file st) st'"
proof -
  let ?files = "fst (discover_posts_and_pages C) @ snd (discover_posts_and_pages C)"
  obtain res printed where ct: "collect_tasks E C False (cache st) ?files = (res, printed)"
    by (cases "collect_tasks E C False (cache st) ?files") auto
  let ?st0 = "st\<lparr>console := console st @ printed\<rparr>"
  show ?thesis
  proof (cases res)
    case (Inl e)
    with assms ct have "st' = ?st0" by (simp add: build_def Let_def)
    then show ?thesis by (simp add: disk_sound_def)
  next
    case (Inr tasks)
    let ?st1 = "?st0\<lparr>console := console ?st0 @
                  concat (map (worker_printed E C) (as_completed E tasks))\<rparr>"
    show ?thesis
    proof (cases "render_all E C (theme_dir G) (site_meta_of E G) (as_completed E tasks)")
      case (Inl e)
      with assms ct Inr have "st' = ?st1" by (simp add: build_def Let_def)
      then show ?thesis by (simp add: disk_sound_def)
    next
      case results: (Inr results)
      with assms ct Inr
      have "finish_build E G C False (site_meta_of E G) results ?st1 = (r, st')"
        by (simp add: build_def Let_def)
      from finish_build_sound [OF this render_all_genuine [OF results], of "cache st"]
      show ?thesis by simp
    qed
  qed
qed

text \<open>
  C9, as the code has it. In a build without the force flag, however it ends:
  a cache entry on disk that differs from the one the build loaded belongs to
  a document that is not a draft, holds the hash of its raw text and names an
  output file that exists; the entry of a draft, present or absent, is the one
  the build loaded. Consequently, for the next build: a document whose entry
  holds the hash of its text is not dispatched, so un-drafting a document
  back to the text that was recorded when it was last output does not render
  it again; and a document without an entry that is not a draft is
  dispatched, so a draft that was never output is rendered once it is
  un-drafted.
\<close>

theorem cache_entries_only_for_output:
  assumes "run_build E G C False disk = (r, st')"
  shows "(\<forall>p. load_cache (cache_file st') p \<noteq> load_cache (snd disk) p \<longrightarrow>
            (\<exists>raw ce. read_file C p = Some raw \<and> \<not> is_draft E raw
               \<and> load_cache (cache_file st') p = Some ce
               \<and> ce_hash ce = compute_hash E raw \<and> ce_output ce \<in> dom (public st')))
       \<and> (\<forall>d raw. read_file C d = Some raw \<and> is_draft E raw \<longrightarrow>
            load_cache (cache_file st') d = load_cache (snd disk) d)
       \<and> (\<forall>d C2 fs2 raw2 ce tasks2.
            load_cache (cache_file st') d = Some ce \<and> ce_hash ce = compute_hash E raw2
            \<and> read_file C2 d = Some raw2
            \<and> fst (collect_tasks E C2 False (load_cache (cache_file st')) fs2) = Inr tasks2
            \<longrightarrow> d \<notin> set tasks2)
       \<and> (\<forall>d C2 fs2 raw2 tasks2.
            load_cache (cache_file st') d = None \<and> d \<in> set fs2
            \<and> read_file C2 d = Some raw2 \<and> \<not> is_draft E raw2
            \<and> fst (collect_tasks E C2 False (load_cache (cache_file st')) fs2) = Inr tasks2
            \<longrightarrow> d \<in> set tasks2)"
proof -
  from assms have "build E G C False (start_state disk) = (r, st')"
    by (simp add: run_build_def)
  from build_sound [OF this]
  have ds: "disk_sound E C (load_cache (snd disk)) (snd disk) st'"
    by (simp add: start_state_def)
  have a: "\<exists>raw ce. read_file C p = Some raw \<and> \<not> is_draft E raw
               \<and> load_cache (cache_file st') p = Some ce
               \<and> ce_hash ce = compute_hash E raw \<and> ce_output ce \<in> dom (public st')"
    if neq: "load_cache (cache_file st') p \<noteq> load_cache (snd disk) p" for p
  proof -
    from ds neq have cf: "cache_file st' = Some (cache st')"
      and fs: "fresh_entries_sound E C (load_cache (snd disk)) st'"
      by (auto simp: disk_sound_def)
    from cf have lc: "load_cache (cache_file st') = cache st'" by (simp add: load_cache_def)
    with neq fs have "entry_sound E C st' p" by (auto simp: fresh_entries_sound_def)
    then show ?thesis
      unfolding lc by (auto simp: entry_sound_def split: option.splits)
  qed
  have b: "load_cache (cache_file st') d = load_cache (snd disk) d"
    if "read_file C d = Some raw" "is_draft E raw" for d raw
    using a [of d] that by auto
  have c: "d \<in> set tasks2"
    if "load_cache (cache_file st') d = None" "d \<in> set fs2" "read_file C2 d = Some raw2"
      "\<not> is_draft E raw2"
      "fst (collect_tasks E C2 False (load_cache (cache_file st')) fs2) = Inr tasks2"
    for d C2 fs2 raw2 tasks2
  proof -
    from that(1,3,4) have "dispatched E C2 False (load_cache (cache_file st')) d"
      by (simp add: dispatched_def needs_render_def)
    with collect_tasks_filter [OF that(5)] that(2) show ?thesis by simp
  qed
  have e: "d \<notin> set tasks2"
    if "load_cache (cache_file st') d = Some ce" "ce_hash ce = compute_hash E raw2"
      "read_file C2 d = Some raw2"
      "fst (collect_tasks E C2 False (load_cache (cache_file st')) fs2) = Inr tasks2"
    for d C2 fs2 raw2 ce tasks2
  proof -
    from that(1,2,3) have "\<not> dispatched E C2 False (load_cache (cache_file st')) d"
      by (simp add: dispatched_def needs_render_def)
    with collect_tasks_filter [OF that(4)] show ?thesis by simp
  qed
  from a b c e show ?thesis by blast
qed

text \<open>
  A document is published, then marked as a draft, then the flag is turned
  off again: the first build records a sound entry, the second leaves it, and
  the third dispatches nothing. And a site whose only document is a draft
  from the start: after the build it has no cache entry, and the file with
  the flag turned off is dispatched.
\<close>

theorem cache_entries_only_for_output_witness:
  "load_cache (cache_file (snd (run_build demo_env demo_gen blog_undrafted False empty_disk)))
       ''content/d.md'' \<noteq> load_cache (snd empty_disk) ''content/d.md''
   \<and> (\<exists>ce. load_cache (cache_file (snd (run_build demo_env demo_gen blog_draft False
               (disk_after (run_build demo_env demo_gen blog_undrafted False empty_disk)))))
               ''content/d.md'' = Some ce
          \<and> ce_hash ce = compute_hash demo_env (fm_doc ''draft: false'' ''x'')
          \<and> ce_output ce
               \<in> dom (public (snd (run_build demo_env demo_gen blog_undrafted False empty_disk))))
   \<and> is_draft demo_env (fm_doc ''draft: true'' ''x'')
   \<and> \<not> is_draft demo_env (fm_doc ''draft: false'' ''x'')
   \<and> fst (collect_tasks demo_env blog_undrafted False
        (load_cache (cache_file (snd (run_build demo_env demo_gen blog_draft False
               (disk_after (run_build demo_env demo_gen blog_undrafted False empty_disk))))))
        [''content/d.md'']) = Inr []
   \<and> ''content/d.md'' \<notin> set ([] :: string list)
   \<and> load_cache (cache_file (snd (run_build demo_env demo_gen blog_draft False empty_disk)))
        ''content/d.md'' = None
   \<and> fst (collect_tasks demo_env blog_undrafted False
        (load_cache (cache_file (snd (run_build demo_env demo_gen blog_draft False empty_disk))))
        [''content/d.md'']) = Inr [''content/d.md'']
   \<and> ''content/d.md'' \<in> set [''content/d.md'']"
proof -
  let ?d = "''content/d.md''"
  let ?pub = "run_build demo_env demo_gen blog_undrafted False empty_disk"
  let ?hid = "run_build demo_env demo_gen blog_draft False (disk_after ?pub)"
  let ?r1 = "run_build demo_env demo_gen blog_draft False empty_disk"
  have rd: "read_file blog_draft ?d = Some (fm_doc ''draft: true'' ''x'')" by code_simp
  have dr: "is_draft demo_env (fm_doc ''draft: true'' ''x'')" by code_simp
  have rd2: "read_file blog_undrafted ?d = Some (fm_doc ''draft: false'' ''x'')" by code_simp
  have dr2: "\<not> is_draft demo_env (fm_doc ''draft: false'' ''x'')" by code_simp
  have e: "load_cache (snd empty_disk) ?d = None"
    by (simp add: empty_disk_def load_cache_def)
  \<comment> \<open>The document is published: its entry is new and sound.\<close>
  have hp: "?pub = (fst ?pub, snd ?pub)" by simp
  have ch: "load_cache (cache_file (snd ?pub)) ?d \<noteq> None" by code_simp
  with e have neq: "load_cache (cache_file (snd ?pub)) ?d \<noteq> load_cache (snd empty_disk) ?d"
    by simp
  from cache_entries_only_for_output [OF hp, THEN conjunct1, rule_format, OF neq]
  obtain raw ce where r0: "read_file blog_undrafted ?d = Some raw"
    and ce: "load_cache (cache_file (snd ?pub)) ?d = Some ce"
    and hs0: "ce_hash ce = compute_hash demo_env raw"
    and ou: "ce_output ce \<in> dom (public (snd ?pub))"
    by blast
  from r0 rd2 hs0 have hs: "ce_hash ce = compute_hash demo_env (fm_doc ''draft: false'' ''x'')"
    by simp
  \<comment> \<open>It is marked as a draft: the entry stays.\<close>
  have hh: "?hid = (fst ?hid, snd ?hid)" by simp
  note th = cache_entries_only_for_output [OF hh]
  from th [THEN conjunct2, THEN conjunct1, rule_format, OF conjI [OF rd dr]]
  have "load_cache (cache_file (snd ?hid)) ?d = load_cache (snd (disk_after ?pub)) ?d" .
  with ce have ce': "load_cache (cache_file (snd ?hid)) ?d = Some ce"
    by (simp add: disk_after_def)
  \<comment> \<open>The flag is turned off again: the stored hash is the hash of the text.\<close>
  have ts0: "fst (collect_tasks demo_env blog_undrafted False (load_cache (cache_file (snd ?hid)))
      [?d]) = Inr []"
    by code_simp
  from th [THEN conjunct2, THEN conjunct2, THEN conjunct1, rule_format,
      OF conjI [OF ce' conjI [OF hs conjI [OF rd2 ts0]]]]
  have nin: "?d \<notin> set ([] :: string list)" .
  \<comment> \<open>A draft that was never published has no entry and is rendered.\<close>
  have h1: "?r1 = (fst ?r1, snd ?r1)" by simp
  note t1 = cache_entries_only_for_output [OF h1]
  from t1 [THEN conjunct2, THEN conjunct1, rule_format, OF conjI [OF rd dr]] e
  have n: "load_cache (cache_file (snd ?r1)) ?d = None" by simp
  have ts: "fst (collect_tasks demo_env blog_undrafted False (load_cache (cache_file (snd ?r1)))
      [?d]) = Inr [?d]"
    by code_simp
  have m: "?d \<in> set [?d]" by simp
  from t1 [THEN conjunct2, THEN conjunct2, THEN conjunct2, rule_format,
      OF conjI [OF n conjI [OF m conjI [OF rd2 conjI [OF dr2 ts]]]]]
  have yes: "?d \<in> set [?d]" .
  from ce' hs ou have ex: "\<exists>ce. load_cache (cache_file (snd ?hid)) ?d = Some ce
          \<and> ce_hash ce = compute_hash demo_env (fm_doc ''draft: false'' ''x'')
          \<and> ce_output ce \<in> dom (public (snd ?pub))"
    by blast
  show ?thesis
    by (intro conjI) (rule neq ex dr dr2 ts0 nin n ts yes)+
qed

text \<open>
  C9 as stated fails in its consequence for a draft that was never output: it
  gets no cache entry, and the next build, with the flag turned off and
  nothing else changed, renders the document and writes its page.
\<close>

theorem undrafted_is_rendered_counterexample:
  "is_draft demo_env (fm_doc ''draft: true'' ''x'')
   \<and> fst (run_build demo_env demo_gen blog_draft False empty_disk) = None
   \<and> load_cache (cache_file (snd (run_build demo_env demo_gen blog_draft False empty_disk)))
        ''content/d.md'' = None
   \<and> fst (collect_tasks demo_env blog_undrafted False
        (load_cache (cache_file (snd (run_build demo_env demo_gen blog_draft False empty_disk))))
        [''content/d.md'']) = Inr [''content/d.md'']
   \<and> public (snd (run_build demo_env demo_gen blog_undrafted False
             (disk_after (run_build demo_env demo_gen blog_draft False empty_disk))))
        ''public/d/index.html'' = Some ''x''"
  by code_simp

end
